theory Spec2Isabelle
  imports Complex_Main "HOL-Library.Multiset"
begin

section \<open>Entity model\<close>

text \<open>
  A JavaScript number is modelled by its real value. The midpoint that
  \<^verbatim>\<open>createApertureBetween\<close> computes is a sum of four terms, whose value depends on
  the order of the additions; it is rounded as the code rounds it, in double precision.
  The other arithmetic of the model is one addition, subtraction or halving of pixel
  values and is taken exact. Identifiers, labels, payloads and side names are
  JavaScript strings.
\<close>

record position =
  p_left :: real
  p_top :: real

record box_size =
  s_width :: real
  s_height :: real

text \<open>\<^verbatim>\<open>Room.ui\<close>: \<^verbatim>\<open>{ position: {left, top}, size: {width, height} }\<close>.\<close>

record room_ui =
  ui_position :: position
  ui_size :: box_size

text \<open>\<^verbatim>\<open>js/objects/Room.js\<close>: the fields \<^verbatim>\<open>id\<close>, \<^verbatim>\<open>label\<close>, \<^verbatim>\<open>data\<close>, \<^verbatim>\<open>ui\<close>.\<close>

record room =
  room_id :: string
  room_label :: string
  room_data :: string
  room_ui :: room_ui

text \<open>
  \<^verbatim>\<open>js/objects/Aperture.js\<close>: the fields \<^verbatim>\<open>id\<close>, \<^verbatim>\<open>area\<close>, \<^verbatim>\<open>grounded\<close>,
  \<^verbatim>\<open>rooms\<close>, \<^verbatim>\<open>ui\<close>. An aperture's \<^verbatim>\<open>ui\<close> holds a position only. The area is the
  one number that can leave the reals: \<^verbatim>\<open>Number(...)\<close> in the editor may give
  \<^verbatim>\<open>NaN\<close> or an infinity, which \<open>NonFinite\<close> stands for.
\<close>

datatype jsnumber = Finite real | NonFinite

record aperture =
  ap_id :: string
  ap_area :: jsnumber
  ap_grounded :: bool
  ap_rooms :: "string list"
  ap_ui :: position

section \<open>JavaScript \<^verbatim>\<open>Map\<close>\<close>

text \<open>
  A \<^verbatim>\<open>Map\<close> iterates in insertion order, so it is an association list. \<^verbatim>\<open>set\<close> on a
  key that is present replaces the value where the key stands; on a new key it appends.
\<close>

type_synonym ('k, 'v) jsmap = "('k \<times> 'v) list"

definition map_get :: "('k, 'v) jsmap \<Rightarrow> 'k \<Rightarrow> 'v option" where
  "map_get m k = map_of m k"

definition map_has :: "('k, 'v) jsmap \<Rightarrow> 'k \<Rightarrow> bool" where
  "map_has m k = (map_of m k \<noteq> None)"

fun map_set :: "('k, 'v) jsmap \<Rightarrow> 'k \<Rightarrow> 'v \<Rightarrow> ('k, 'v) jsmap" where
  "map_set [] k v = [(k, v)]"
| "map_set ((k', v') # m) k v =
     (if k' = k then (k, v) # m else (k', v') # map_set m k v)"

definition map_delete :: "('k, 'v) jsmap \<Rightarrow> 'k \<Rightarrow> ('k, 'v) jsmap" where
  "map_delete m k = filter (\<lambda>e. fst e \<noteq> k) m"

definition map_keys :: "('k, 'v) jsmap \<Rightarrow> 'k list" where
  "map_keys m = map fst m"

definition map_values :: "('k, 'v) jsmap \<Rightarrow> 'v list" where
  "map_values m = map snd m"

section \<open>Graph State\<close>

text \<open>
  \<^verbatim>\<open>js/core/state.js\<close>. A DOM element is stood for by its \<^verbatim>\<open>dataset.id\<close>.
  \<^verbatim>\<open>linkSelection\<close> holds the Room objects themselves; no operation modelled here
  changes a room while it is selected, so a copy of the room stands for the reference.
\<close>

record state =
  rooms :: "(string, room) jsmap"
  apertures :: "(string, aperture) jsmap"
  selected :: "string option"
  linkMode :: bool
  linkSelection :: "room list"
  linkingDOMElements :: "string list"
  resultsViewMode :: bool
  transportPathMode :: bool

section \<open>RoomManager\<close>

text \<open>Decimal digits of a number, as string concatenation with a number writes them.\<close>

fun string_of_nat :: "nat \<Rightarrow> string" where
  "string_of_nat n =
     (if n < 10 then [char_of (48 + n)]
      else string_of_nat (n div 10) @ [char_of (48 + n mod 10)])"

declare string_of_nat.simps [simp del]

text \<open>The argument object of \<^verbatim>\<open>createRoom\<close>: each override may be absent.\<close>

record room_init =
  init_label :: "string option"
  init_data :: "string option"
  init_ui :: "room_ui option"

definition default_room_ui :: room_ui where
  "default_room_ui =
     \<lparr>ui_position = \<lparr>p_left = 50, p_top = 50\<rparr>, ui_size = \<lparr>s_width = 120, s_height = 90\<rparr>\<rparr>"

text \<open>\<^verbatim>\<open>s || d\<close> on a string that may be absent: the empty string is falsy.\<close>

definition str_or :: "string option \<Rightarrow> string \<Rightarrow> string" where
  "str_or s d = (case s of None \<Rightarrow> d | Some t \<Rightarrow> if t = [] then d else t)"

text \<open>
  The constructor of \<^verbatim>\<open>Room\<close>. \<^verbatim>\<open>defaultRoomText()\<close> lives in
  \<^verbatim>\<open>js/core/default_room_text.js\<close>; its result is the parameter \<open>dflt\<close>.
\<close>

definition new_Room :: "string \<Rightarrow> string \<Rightarrow> string \<Rightarrow> string \<Rightarrow> room_ui \<Rightarrow> room" where
  "new_Room dflt i l d u =
     \<lparr>room_id = i, room_label = str_or (Some l) ''Room'',
      room_data = str_or (Some d) dflt, room_ui = u\<rparr>"

text \<open>
  \<^verbatim>\<open>createRoom(initialData)\<close>. The result of \<^verbatim>\<open>generateId()\<close>
  (\<^verbatim>\<open>crypto.randomUUID()\<close>) is the argument \<open>nid\<close>.
\<close>

definition createRoom :: "string \<Rightarrow> string \<Rightarrow> room_init \<Rightarrow> state \<Rightarrow> room \<times> state" where
  "createRoom dflt nid initialData s =
     (let r = new_Room dflt nid
                (str_or (init_label initialData) (''Room '' @ string_of_nat (length (rooms s))))
                (str_or (init_data initialData) dflt)
                (case init_ui initialData of None \<Rightarrow> default_room_ui | Some u \<Rightarrow> u)
      in (r, s\<lparr>rooms := map_set (rooms s) nid r\<rparr>))"

text \<open>\<^verbatim>\<open>removeRoom(id)\<close>: every aperture's \<^verbatim>\<open>rooms\<close> is filtered, then the room is deleted.\<close>

definition strip_room :: "string \<Rightarrow> aperture \<Rightarrow> aperture" where
  "strip_room i ap = ap\<lparr>ap_rooms := filter (\<lambda>rid. rid \<noteq> i) (ap_rooms ap)\<rparr>"

fun forEach_value :: "('v \<Rightarrow> 'v) \<Rightarrow> ('k, 'v) jsmap \<Rightarrow> ('k, 'v) jsmap" where
  "forEach_value f [] = []"
| "forEach_value f ((k, v) # m) = (k, f v) # forEach_value f m"

definition removeRoom :: "string \<Rightarrow> state \<Rightarrow> state" where
  "removeRoom i s =
     (let s1 = s\<lparr>apertures := forEach_value (strip_room i) (apertures s)\<rparr>
      in s1\<lparr>rooms := map_delete (rooms s1) i\<rparr>)"

section \<open>Double-precision arithmetic\<close>

text \<open>
  A finite IEEE 754 double is a whole multiple \<open>m * 2 ^ e\<close> of a power of two with
  \<open>\<bar>m\<bar> < 2 ^ 53\<close> and \<open>e \<ge> - 1074\<close>. \<open>rd\<close> rounds a real number to the nearest
  double, a tie to the even multiple, which is how \<^verbatim>\<open>+\<close> and \<^verbatim>\<open>/\<close> round their exact
  result. \<open>ilen a\<close> is the number of binary digits of a positive integer, \<open>ilog2 x\<close>
  the exponent of the power of two at or below a positive real, \<open>pow2 e\<close> the power
  \<open>2 ^ e\<close> for an integer exponent. A result of magnitude \<open>2 ^ 1024\<close> or more is an
  infinity in JavaScript; the positions of the model are finite, and such sums lie
  outside it.
\<close>

function ilen :: "int \<Rightarrow> int" where
  "ilen a = (if a \<le> 0 then 0 else 1 + ilen (a div 2))"
  by pat_completeness auto
termination
  by (relation "measure nat") auto

declare ilen.simps [simp del]

definition pow2 :: "int \<Rightarrow> real" where
  "pow2 e = (if e \<ge> 0 then 2 ^ nat e else 1 / 2 ^ nat (- e))"

definition ilog2 :: "real \<Rightarrow> int" where
  "ilog2 x = (if x \<ge> 1 then ilen \<lfloor>x\<rfloor> - 1 else - ilen (\<lceil>1 / x\<rceil> - 1))"

definition round_even :: "real \<Rightarrow> int" where
  "round_even y =
     (let f = \<lfloor>y\<rfloor>
      in if y - of_int f < 1 / 2 then f
         else if y - of_int f > 1 / 2 then f + 1
         else if even f then f else f + 1)"

definition rd :: "real \<Rightarrow> real" where
  "rd x =
     (if x = 0 then 0
      else let e = max (ilog2 \<bar>x\<bar> - 52) (- 1074)
           in of_int (round_even (x / pow2 e)) * pow2 e)"

text \<open>\<^verbatim>\<open>x + y\<close> and \<^verbatim>\<open>x / y\<close> on doubles; the code divides by 2 only.\<close>

definition fadd :: "real \<Rightarrow> real \<Rightarrow> real" where
  "fadd x y = rd (x + y)"

definition fdiv :: "real \<Rightarrow> real \<Rightarrow> real" where
  "fdiv x y = rd (x / y)"

section \<open>ApertureManager\<close>

text \<open>
  \<^verbatim>\<open>createApertureBetween(roomA, roomB, area = 1.0)\<close>. \<open>None\<close> is an area that is
  omitted or \<^verbatim>\<open>null\<close>: the default parameter and the constructor's
  \<^verbatim>\<open>area ?? 1.0\<close> both give 1. The position is
  \<^verbatim>\<open>(A.left + A.width / 2 + B.left + B.width / 2) / 2\<close>, the sum taken from left to
  right as JavaScript does, every operation rounded.
\<close>

definition area_or_default :: "jsnumber option \<Rightarrow> jsnumber" where
  "area_or_default area = (case area of None \<Rightarrow> Finite 1 | Some a \<Rightarrow> a)"

definition between_left :: "room \<Rightarrow> room \<Rightarrow> real" where
  "between_left roomA roomB =
     fdiv
       (fadd
          (fadd
             (fadd (p_left (ui_position (room_ui roomA)))
                (fdiv (s_width (ui_size (room_ui roomA))) 2))
             (p_left (ui_position (room_ui roomB))))
          (fdiv (s_width (ui_size (room_ui roomB))) 2))
       2"

definition between_top :: "room \<Rightarrow> room \<Rightarrow> real" where
  "between_top roomA roomB =
     fdiv
       (fadd
          (fadd
             (fadd (p_top (ui_position (room_ui roomA)))
                (fdiv (s_height (ui_size (room_ui roomA))) 2))
             (p_top (ui_position (room_ui roomB))))
          (fdiv (s_height (ui_size (room_ui roomB))) 2))
       2"

definition createApertureBetween ::
  "string \<Rightarrow> room \<Rightarrow> room \<Rightarrow> jsnumber option \<Rightarrow> state \<Rightarrow> aperture \<times> state" where
  "createApertureBetween nid roomA roomB area s =
     (let l = between_left roomA roomB;
          t = between_top roomA roomB;
          ap = \<lparr>ap_id = nid, ap_area = area_or_default area,
                ap_grounded = False, ap_rooms = [room_id roomA, room_id roomB],
                ap_ui = \<lparr>p_left = l, p_top = t\<rparr>\<rparr>
      in (ap, s\<lparr>apertures := map_set (apertures s) nid ap\<rparr>))"

text \<open>\<^verbatim>\<open>createGroundedAperture(roomA, side, area = 1.0)\<close>.\<close>

definition aperture_graphic_radius :: real where
  "aperture_graphic_radius = 12"

definition top_delta :: "room \<Rightarrow> string \<Rightarrow> real" where
  "top_delta roomA side =
     (if side = ''Front'' then s_height (ui_size (room_ui roomA)) + aperture_graphic_radius
      else if side = ''Back'' then - aperture_graphic_radius
      else s_height (ui_size (room_ui roomA)) / 2)"

definition left_delta :: "room \<Rightarrow> string \<Rightarrow> real" where
  "left_delta roomA side =
     (if side = ''Left'' then - aperture_graphic_radius
      else if side = ''Right'' then s_width (ui_size (room_ui roomA)) + aperture_graphic_radius
      else s_width (ui_size (room_ui roomA)) / 2)"

definition createGroundedAperture ::
  "string \<Rightarrow> room \<Rightarrow> string \<Rightarrow> jsnumber option \<Rightarrow> state \<Rightarrow> aperture \<times> state" where
  "createGroundedAperture nid roomA side area s =
     (let l = p_left (ui_position (room_ui roomA)) + left_delta roomA side;
          t = p_top (ui_position (room_ui roomA)) + top_delta roomA side;
          ap = \<lparr>ap_id = nid, ap_area = area_or_default area,
                ap_grounded = True, ap_rooms = [room_id roomA, side],
                ap_ui = \<lparr>p_left = l, p_top = t\<rparr>\<rparr>
      in (ap, s\<lparr>apertures := map_set (apertures s) nid ap\<rparr>))"

definition removeAperture :: "string \<Rightarrow> state \<Rightarrow> state" where
  "removeAperture i s = s\<lparr>apertures := map_delete (apertures s) i\<rparr>"

section \<open>LinkModeManager\<close>

text \<open>
  \<^verbatim>\<open>room in State.linkSelection\<close> asks whether the array has a property whose key is
  the room converted to a string. A Room has no \<^verbatim>\<open>toString\<close> of its own, so the
  key is \<^verbatim>\<open>[object Object]\<close>. An array of length n has the keys 0 .. n-1,
  \<^verbatim>\<open>length\<close>, and the names it inherits from its prototypes.
\<close>

definition room_property_key :: "room \<Rightarrow> string" where
  "room_property_key r = ''[object Object]''"

definition object_prototype_keys :: "string list" where
  "object_prototype_keys =
     [''constructor'', ''__defineGetter__'', ''__defineSetter__'', ''hasOwnProperty'',
      ''__lookupGetter__'', ''__lookupSetter__'', ''isPrototypeOf'',
      ''propertyIsEnumerable'', ''toString'', ''valueOf'', ''__proto__'',
      ''toLocaleString'']"

definition array_prototype_keys :: "string list" where
  "array_prototype_keys =
     [''at'', ''concat'', ''copyWithin'', ''fill'', ''find'', ''findIndex'', ''findLast'',
      ''findLastIndex'', ''lastIndexOf'', ''pop'', ''push'', ''reverse'', ''shift'',
      ''unshift'', ''slice'', ''sort'', ''splice'', ''includes'', ''indexOf'', ''join'',
      ''keys'', ''entries'', ''values'', ''forEach'', ''filter'', ''flat'', ''flatMap'',
      ''map'', ''every'', ''some'', ''reduce'', ''reduceRight'', ''toReversed'',
      ''toSorted'', ''toSpliced'', ''with'']"

definition in_array :: "string \<Rightarrow> 'a list \<Rightarrow> bool" where
  "in_array key xs =
     (key \<in> set (map string_of_nat [0..<length xs]) \<or> key = ''length'' \<or>
      key \<in> set array_prototype_keys \<or> key \<in> set object_prototype_keys)"

definition enableLinkMode :: "state \<Rightarrow> state" where
  "enableLinkMode s = s\<lparr>linkMode := True, linkSelection := []\<rparr>"

definition disableLinkMode :: "state \<Rightarrow> state" where
  "disableLinkMode s = s\<lparr>linkMode := False, linkSelection := [], linkingDOMElements := []\<rparr>"

text \<open>
  \<^verbatim>\<open>linkRoom(room, el)\<close>. \<open>nid\<close> is the identifier \<^verbatim>\<open>generateId()\<close> returns if the
  aperture is created. \<^verbatim>\<open>createDomAperture\<close> builds DOM only.
\<close>

definition linkRoom :: "string \<Rightarrow> room \<Rightarrow> string \<Rightarrow> state \<Rightarrow> state" where
  "linkRoom nid r el s =
     (if \<not> linkMode s then s
      else if in_array (room_property_key r) (linkSelection s) then s
      else
        let s1 = s\<lparr>linkSelection := linkSelection s @ [r]\<rparr>;
            s2 = s1\<lparr>linkingDOMElements := linkingDOMElements s1 @ [el]\<rparr>
        in if length (linkSelection s2) = 2
           then disableLinkMode
                  (snd (createApertureBetween nid (linkSelection s2 ! 0) (linkSelection s2 ! 1)
                          None s2))
           else s2)"

definition linkClickBanner :: "string \<Rightarrow> string \<Rightarrow> state \<Rightarrow> state" where
  "linkClickBanner nid side s =
     (if \<not> linkMode s then s
      else if length (linkSelection s) \<noteq> 1 then s
      else disableLinkMode (snd (createGroundedAperture nid (linkSelection s ! 0) side None s)))"

section \<open>JSON values\<close>

text \<open>
  What \<^verbatim>\<open>JSON.parse\<close> returns. An object lists its members in property order.
  \<^verbatim>\<open>JSON.parse\<close> and \<^verbatim>\<open>JSON.stringify\<close> are the platform's; they are the parameters
  \<open>parse\<close> (with \<open>None\<close> for a text that is not JSON) and \<open>stringify\<close>.
\<close>

datatype json =
  JNull | JBool bool | JNum real | JStr string | JArr "json list" | JObj "(string \<times> json) list"

definition safeParseJSON :: "(string \<Rightarrow> json option) \<Rightarrow> string \<Rightarrow> json \<Rightarrow> json" where
  "safeParseJSON parse text fallback = (case parse text of Some j \<Rightarrow> j | None \<Rightarrow> fallback)"

text \<open>Truthiness of a JSON value; \<open>None\<close> is \<^verbatim>\<open>undefined\<close>.\<close>

fun truthy :: "json option \<Rightarrow> bool" where
  "truthy None = False"
| "truthy (Some JNull) = False"
| "truthy (Some (JBool b)) = b"
| "truthy (Some (JNum r)) = (r \<noteq> 0)"
| "truthy (Some (JStr t)) = (t \<noteq> [])"
| "truthy (Some (JArr xs)) = True"
| "truthy (Some (JObj ms)) = True"

text \<open>
  \<^verbatim>\<open>j?.key\<close> for a key that no prototype defines (every key the code reads by name is
  such a key): the member of an object, \<^verbatim>\<open>undefined\<close> on anything else.
\<close>

fun member :: "json \<Rightarrow> string \<Rightarrow> json option" where
  "member (JObj ms) key = map_of ms key"
| "member j key = None"

section \<open>JsonEditor\<close>

text \<open>
  The error line of the editor: \<open>error_display\<close> is \<^verbatim>\<open>style.display = "block"\<close>,
  \<open>error_html\<close> its \<^verbatim>\<open>innerHTML\<close>; \<open>editor_value\<close> is the text of the textarea.
\<close>

record editor =
  editor_value :: string
  error_display :: bool
  error_html :: string

definition check_aperture :: "(string \<Rightarrow> json option) \<Rightarrow> editor \<Rightarrow> editor" where
  "check_aperture parse ed =
     (let obj = safeParseJSON parse (editor_value ed) JNull
      in if obj \<noteq> JNull \<and> truthy (member obj ''area'')
         then ed\<lparr>error_display := False\<rparr>
         else ed\<lparr>error_display := True, error_html := ''Area of aperture not defined''\<rparr>)"

text \<open>
  \<^verbatim>\<open>check_room\<close> asks the backend validator, the parameter \<open>validate\<close> (success flag
  and message); its answer is applied when it arrives.
\<close>

definition check_room :: "(string \<Rightarrow> bool \<times> string) \<Rightarrow> editor \<Rightarrow> editor" where
  "check_room validate ed =
     (let validation = validate (editor_value ed)
      in if \<not> fst validation
         then ed\<lparr>error_display := True, error_html := snd validation\<rparr>
         else ed\<lparr>error_display := False\<rparr>)"

text \<open>
  \<^verbatim>\<open>Number(v)\<close> on a JSON value; \<open>None\<close> is a TypeError. A string or an array is
  converted through its string form by the platform (the parameter \<open>conv\<close>). An object
  converts to \<^verbatim>\<open>NaN\<close>, unless a member named \<^verbatim>\<open>toString\<close> hides the inherited
  method, and then the conversion throws.
\<close>

fun js_Number :: "(json \<Rightarrow> jsnumber option) \<Rightarrow> json \<Rightarrow> jsnumber option" where
  "js_Number conv JNull = Some (Finite 0)"
| "js_Number conv (JBool b) = Some (Finite (if b then 1 else 0))"
| "js_Number conv (JNum r) = Some (Finite r)"
| "js_Number conv (JStr t) = conv (JStr t)"
| "js_Number conv (JArr xs) = conv (JArr xs)"
| "js_Number conv (JObj ms) = (if ''toString'' \<in> set (map fst ms) then None else Some NonFinite)"

datatype completion = Returned | Threw

definition set_area :: "string \<Rightarrow> jsnumber \<Rightarrow> state \<Rightarrow> state" where
  "set_area i a s =
     (case map_get (apertures s) i of
        None \<Rightarrow> s
      | Some ap \<Rightarrow> s\<lparr>apertures := map_set (apertures s) i (ap\<lparr>ap_area := a\<rparr>)\<rparr>)"

definition set_data :: "string \<Rightarrow> string \<Rightarrow> state \<Rightarrow> state" where
  "set_data i txt s =
     (case map_get (rooms s) i of
        None \<Rightarrow> s
      | Some r \<Rightarrow> s\<lparr>rooms := map_set (rooms s) i (r\<lparr>room_data := txt\<rparr>)\<rparr>)"

text \<open>\<^verbatim>\<open>onChange()\<close>: the handler of the editor's \<^verbatim>\<open>input\<close> event.\<close>

definition onChange ::
  "(string \<Rightarrow> json option) \<Rightarrow> (string \<Rightarrow> bool \<times> string) \<Rightarrow> (json \<Rightarrow> jsnumber option) \<Rightarrow>
   state \<Rightarrow> editor \<Rightarrow> completion \<times> state \<times> editor" where
  "onChange parse validate conv s ed =
     (case selected s of
        None \<Rightarrow> (Returned, s, ed)
      | Some i \<Rightarrow>
          let txt = editor_value ed in
          if map_has (rooms s) i then (Returned, set_data i txt s, check_room validate ed)
          else if map_has (apertures s) i then
            let ed1 = check_aperture parse ed;
                obj = safeParseJSON parse txt JNull
            in (case member obj ''area'' of
                  None \<Rightarrow> (Returned, s, ed1)
                | Some v \<Rightarrow>
                    if truthy (Some v)
                    then (case js_Number conv v of
                            None \<Rightarrow> (Threw, s, ed1)
                          | Some a \<Rightarrow> (Returned, set_area i a s, ed1))
                    else (Returned, s, ed1))
          else (Returned, s, ed))"

section \<open>DragResizeManager\<close>

text \<open>
  \<^verbatim>\<open>throttle(fn, delay)\<close>: the closure keeps \<^verbatim>\<open>last\<close>; a call at time \<open>now\<close> (the
  value \<^verbatim>\<open>performance.now()\<close> returns in it) runs \<open>fn\<close> when \<open>now - last \<ge> delay\<close>.
  The result says whether \<open>fn\<close> ran, with the new \<^verbatim>\<open>last\<close>.
\<close>

definition throttle :: "real \<Rightarrow> real \<Rightarrow> real \<Rightarrow> bool \<times> real" where
  "throttle delay now lst = (if now - lst \<ge> delay then (True, now) else (False, lst))"

text \<open>
  The manager, the Graph State it writes to, and what the renderer has drawn:
  \<open>rendered\<close> is the Graph State as it was at the last \<^verbatim>\<open>renderer.update()\<close>,
  \<open>render_times\<close> the times of all runs.
\<close>

record drag_resize =
  dragging :: "string option"
  resizing :: "string option"
  offsetX :: real
  offsetY :: real
  throttle_last :: real
  world :: state
  rendered :: state
  render_times :: "real list"

definition new_DragResizeManager :: "state \<Rightarrow> drag_resize" where
  "new_DragResizeManager s =
     \<lparr>dragging = None, resizing = None, offsetX = 0, offsetY = 0, throttle_last = 0,
      world = s, rendered = s, render_times = []\<rparr>"

definition throttledRender :: "real \<Rightarrow> drag_resize \<Rightarrow> drag_resize" where
  "throttledRender now d =
     (let r = throttle 16 now (throttle_last d)
      in if fst r
         then d\<lparr>throttle_last := snd r, rendered := world d,
                render_times := render_times d @ [now]\<rparr>
         else d\<lparr>throttle_last := snd r\<rparr>)"

definition setPosition :: "real \<Rightarrow> real \<Rightarrow> room \<Rightarrow> room" where
  "setPosition l t r =
     r\<lparr>room_ui := (room_ui r)\<lparr>ui_position := \<lparr>p_left = l, p_top = t\<rparr>\<rparr>\<rparr>"

definition setSize :: "real \<Rightarrow> real \<Rightarrow> room \<Rightarrow> room" where
  "setSize w h r =
     r\<lparr>room_ui := (room_ui r)\<lparr>ui_size := \<lparr>s_width = w, s_height = h\<rparr>\<rparr>\<rparr>"

definition updateUIData :: "string \<Rightarrow> real \<Rightarrow> real \<Rightarrow> state \<Rightarrow> state" where
  "updateUIData i l t s =
     (let s1 = (case map_get (rooms s) i of
                  None \<Rightarrow> s
                | Some r \<Rightarrow> s\<lparr>rooms := map_set (rooms s) i (setPosition l t r)\<rparr>)
      in case map_get (apertures s1) i of
           None \<Rightarrow> s1
         | Some ap \<Rightarrow>
             s1\<lparr>apertures := map_set (apertures s1) i (ap\<lparr>ap_ui := \<lparr>p_left = l, p_top = t\<rparr>\<rparr>)\<rparr>)"

text \<open>
  A pointer event, read where its handler runs: the pointer position, the time
  \<^verbatim>\<open>performance.now()\<close> gives, and for a resize the corner
  \<^verbatim>\<open>getBoundingClientRect()\<close> reports for the element.
\<close>

record pointer_event =
  ev_time :: real
  clientX :: real
  clientY :: real
  rect_left :: real
  rect_top :: real

text \<open>
  \<^verbatim>\<open>startDrag(el, e)\<close>; \<open>style_left\<close> and \<open>style_top\<close> are what
  \<^verbatim>\<open>parseInt(el.style.left || 0, 10)\<close> and its twin read from the element.
\<close>

definition startDrag :: "string \<Rightarrow> real \<Rightarrow> real \<Rightarrow> pointer_event \<Rightarrow> drag_resize \<Rightarrow> drag_resize" where
  "startDrag el style_left style_top e d =
     (if linkMode (world d) then d
      else d\<lparr>dragging := Some el, offsetX := clientX e - style_left,
             offsetY := clientY e - style_top\<rparr>)"

definition onDrag :: "pointer_event \<Rightarrow> drag_resize \<Rightarrow> drag_resize" where
  "onDrag e d =
     (case dragging d of
        None \<Rightarrow> d
      | Some el \<Rightarrow>
          let l = clientX e - offsetX d;
              t = clientY e - offsetY d
          in throttledRender (ev_time e) (d\<lparr>world := updateUIData el l t (world d)\<rparr>))"

definition stopDrag :: "drag_resize \<Rightarrow> drag_resize" where
  "stopDrag d = d\<lparr>dragging := None\<rparr>"

definition startResize :: "string \<Rightarrow> drag_resize \<Rightarrow> drag_resize" where
  "startResize el d = d\<lparr>resizing := Some el\<rparr>"

definition onResize :: "pointer_event \<Rightarrow> drag_resize \<Rightarrow> drag_resize" where
  "onResize e d =
     (case resizing d of
        None \<Rightarrow> d
      | Some el \<Rightarrow>
          let width = max 40 (clientX e - rect_left e);
              height = max 40 (clientY e - rect_top e);
              w = (case map_get (rooms (world d)) el of
                     None \<Rightarrow> world d
                   | Some r \<Rightarrow>
                       (world d)\<lparr>rooms := map_set (rooms (world d)) el (setSize width height r)\<rparr>)
          in throttledRender (ev_time e) (d\<lparr>world := w\<rparr>))"

definition stopResize :: "drag_resize \<Rightarrow> drag_resize" where
  "stopResize d = d\<lparr>resizing := None\<rparr>"

text \<open>The events of a gesture, in the order the browser delivers them.\<close>

datatype gesture_event =
  MouseDownDrag string real real pointer_event
| MouseDownResize string
| MouseMoveDrag pointer_event
| MouseMoveResize pointer_event
| MouseUpDrag
| MouseUpResize

fun handle_event :: "gesture_event \<Rightarrow> drag_resize \<Rightarrow> drag_resize" where
  "handle_event (MouseDownDrag el sl st e) d = startDrag el sl st e d"
| "handle_event (MouseDownResize el) d = startResize el d"
| "handle_event (MouseMoveDrag e) d = onDrag e d"
| "handle_event (MouseMoveResize e) d = onResize e d"
| "handle_event MouseUpDrag d = stopDrag d"
| "handle_event MouseUpResize d = stopResize d"

fun handle_events :: "gesture_event list \<Rightarrow> drag_resize \<Rightarrow> drag_resize" where
  "handle_events [] d = d"
| "handle_events (ev # evs) d = handle_events evs (handle_event ev d)"

text \<open>Successive renderer runs are at least \<open>delay\<close> apart.\<close>

fun spaced :: "real \<Rightarrow> real list \<Rightarrow> bool" where
  "spaced delay [] = True"
| "spaced delay [t] = True"
| "spaced delay (t # u # ts) = (u - t \<ge> delay \<and> spaced delay (u # ts))"

text \<open>What every handler keeps true of the run times and the closure's \<^verbatim>\<open>last\<close>.\<close>

definition render_inv :: "drag_resize \<Rightarrow> bool" where
  "render_inv d =
     (spaced 16 (render_times d) \<and>
      (render_times d = [] \<or> last (render_times d) = throttle_last d))"

section \<open>JavaScript objects as property lists\<close>

text \<open>
  An ordinary object keeps its own properties in this order: the array indices (the
  canonical decimal strings below \<open>2^32 - 1\<close>) ascending, then the other names in the
  order they were first assigned. Assigning to \<^verbatim>\<open>__proto__\<close> creates no own property.
\<close>

definition is_digit :: "char \<Rightarrow> bool" where
  "is_digit c = (c \<in> set ''0123456789'')"

definition int_of_digits :: "string \<Rightarrow> int" where
  "int_of_digits k = foldl (\<lambda>n c. 10 * n + (of_char c - 48)) 0 k"

definition is_array_index :: "string \<Rightarrow> bool" where
  "is_array_index k =
     (k \<noteq> [] \<and> list_all is_digit k \<and> (k = ''0'' \<or> hd k \<noteq> CHR ''0'') \<and>
      int_of_digits k < 4294967295)"

fun insert_index :: "string \<Rightarrow> 'v \<Rightarrow> (string \<times> 'v) list \<Rightarrow> (string \<times> 'v) list" where
  "insert_index k v [] = [(k, v)]"
| "insert_index k v ((k', v') # ms) =
     (if is_array_index k' \<and> int_of_digits k' < int_of_digits k
      then (k', v') # insert_index k v ms
      else (k, v) # (k', v') # ms)"

definition obj_set :: "(string \<times> 'v) list \<Rightarrow> string \<Rightarrow> 'v \<Rightarrow> (string \<times> 'v) list" where
  "obj_set ms k v =
     (if k = ''__proto__'' then ms
      else if k \<in> set (map fst ms) then map (\<lambda>e. if fst e = k then (k, v) else e) ms
      else if is_array_index k then insert_index k v ms
      else ms @ [(k, v)])"

section \<open>LoadSaveManager: save\<close>

text \<open>A file is its name and its text; \<^verbatim>\<open>downloadFile(text, filename)\<close> emits one.\<close>

type_synonym jsfile = "string \<times> string"

text \<open>\<^verbatim>\<open>getRoomLabel(roomId)\<close>; \<open>None\<close> is the TypeError of reading \<^verbatim>\<open>.label\<close> of
  \<^verbatim>\<open>undefined\<close>.\<close>

definition getRoomLabel :: "state \<Rightarrow> string \<Rightarrow> string option" where
  "getRoomLabel s roomId = map_option room_label (map_get (rooms s) roomId)"

definition json_of_position :: "position \<Rightarrow> json" where
  "json_of_position p = JObj [(''left'', JNum (p_left p)), (''top'', JNum (p_top p))]"

definition json_of_size :: "box_size \<Rightarrow> json" where
  "json_of_size z = JObj [(''width'', JNum (s_width z)), (''height'', JNum (s_height z))]"

definition json_of_room_ui :: "room_ui \<Rightarrow> json" where
  "json_of_room_ui u =
     JObj [(''position'', json_of_position (ui_position u)), (''size'', json_of_size (ui_size u))]"

definition json_of_aperture_ui :: "position \<Rightarrow> json" where
  "json_of_aperture_ui p = JObj [(''position'', json_of_position p)]"

text \<open>\<^verbatim>\<open>JSON.stringify\<close> writes \<^verbatim>\<open>NaN\<close> and the infinities as \<^verbatim>\<open>null\<close>.\<close>

definition json_of_number :: "jsnumber \<Rightarrow> json" where
  "json_of_number a = (case a of Finite r \<Rightarrow> JNum r | NonFinite \<Rightarrow> JNull)"

text \<open>
  The descriptor \<^verbatim>\<open>{origin, destination, area}\<close>; a destination that is
  \<^verbatim>\<open>undefined\<close> (no second entry in \<^verbatim>\<open>rooms\<close>) is left out by \<^verbatim>\<open>JSON.stringify\<close>.
\<close>

definition descriptor :: "string \<Rightarrow> string option \<Rightarrow> jsnumber \<Rightarrow> json" where
  "descriptor origin destination area =
     JObj ([(''origin'', JStr origin)] @
           (case destination of None \<Rightarrow> [] | Some d \<Rightarrow> [(''destination'', JStr d)]) @
           [(''area'', json_of_number area)])"

definition room_filename :: "string \<Rightarrow> string" where
  "room_filename label = ''room_'' @ label @ ''.json''"

definition nth_opt :: "'a list \<Rightarrow> nat \<Rightarrow> 'a option" where
  "nth_opt xs i = (if i < length xs then Some (xs ! i) else None)"

text \<open>
  The loop over \<^verbatim>\<open>State.rooms\<close>: the downloaded files, \<^verbatim>\<open>roomFiles\<close> and
  \<^verbatim>\<open>ui_data\<close> as they grow.
\<close>

fun save_rooms ::
  "room list \<Rightarrow> jsfile list \<Rightarrow> (string \<times> json) list \<Rightarrow> (string \<times> json) list \<Rightarrow>
   jsfile list \<times> (string \<times> json) list \<times> (string \<times> json) list" where
  "save_rooms [] files roomFiles ui_data = (files, roomFiles, ui_data)"
| "save_rooms (room # rs) files roomFiles ui_data =
     (let label = room_label room;
          filename = room_filename label
      in save_rooms rs (files @ [(filename, room_data room)])
           (obj_set roomFiles label (JStr filename))
           (obj_set ui_data label (json_of_room_ui (room_ui room))))"

text \<open>
  The loop over \<^verbatim>\<open>State.apertures\<close>: \<^verbatim>\<open>aperturesList\<close> and
  \<^verbatim>\<open>ui_aperture_data\<close> as they grow; \<open>None\<close> when \<^verbatim>\<open>getRoomLabel\<close> throws.
\<close>

fun save_apertures ::
  "state \<Rightarrow> aperture list \<Rightarrow> json list \<Rightarrow> json list \<Rightarrow> (json list \<times> json list) option" where
  "save_apertures s [] aperturesList ui_aperture_data = Some (aperturesList, ui_aperture_data)"
| "save_apertures s (ap # aps) aperturesList ui_aperture_data =
     (let rs = ap_rooms ap;
          ui_aperture_data1 = ui_aperture_data @ [json_of_aperture_ui (ap_ui ap)]
      in if ap_grounded ap then
           (case nth_opt rs 0 of
              None \<Rightarrow> None
            | Some r0 \<Rightarrow>
                (case getRoomLabel s r0 of
                   None \<Rightarrow> None
                 | Some originRoom \<Rightarrow>
                     save_apertures s aps
                       (aperturesList @ [descriptor originRoom (nth_opt rs 1) (ap_area ap)])
                       ui_aperture_data1))
         else if length rs = 2 then
           (case getRoomLabel s (rs ! 0) of
              None \<Rightarrow> None
            | Some originRoom \<Rightarrow>
                (case getRoomLabel s (rs ! 1) of
                   None \<Rightarrow> None
                 | Some destRoom \<Rightarrow>
                     save_apertures s aps
                       (aperturesList @ [descriptor originRoom (Some destRoom) (ap_area ap)])
                       ui_aperture_data1))
         else save_apertures s aps aperturesList ui_aperture_data1)"

text \<open>The object handed to \<^verbatim>\<open>JSON.stringify\<close>; \<open>None\<close> when the aperture loop throws.\<close>

definition master_document :: "state \<Rightarrow> json option" where
  "master_document s =
     (case save_rooms (map_values (rooms s)) [] [] [] of
        (files, roomFiles, ui_data) \<Rightarrow>
          (case save_apertures s (map_values (apertures s)) [] [] of
             None \<Rightarrow> None
           | Some (aperturesList, ui_aperture_data) \<Rightarrow>
               Some (JObj [(''rooms'', JObj roomFiles),
                           (''apertures'', JArr aperturesList),
                           (''ui'', JObj (obj_set ui_data ''apertures'' (JArr ui_aperture_data)))])))"

datatype save_result = Saved "jsfile list" | SaveThrown "jsfile list"

text \<open>\<^verbatim>\<open>save()\<close>: the files downloaded, in order; the master file comes last.\<close>

definition save :: "(json \<Rightarrow> string) \<Rightarrow> state \<Rightarrow> save_result" where
  "save stringify s =
     (case save_rooms (map_values (rooms s)) [] [] [] of
        (files, roomFiles, ui_data) \<Rightarrow>
          (case master_document s of
             None \<Rightarrow> SaveThrown files
           | Some master \<Rightarrow> Saved (files @ [(''layout_master.json'', stringify master)])))"

section \<open>LoadSaveManager: load\<close>

definition is_master :: "json \<Rightarrow> bool" where
  "is_master j = (truthy (member j ''rooms'') \<and> truthy (member j ''apertures''))"

text \<open>\<^verbatim>\<open>findMaster(files)\<close>; \<open>None\<close> is the alert and \<^verbatim>\<open>return null\<close>.\<close>

fun findMaster :: "(string \<Rightarrow> json option) \<Rightarrow> jsfile list \<Rightarrow> json option" where
  "findMaster parse [] = None"
| "findMaster parse (f # fs) =
     (let j = safeParseJSON parse (snd f) JNull
      in if is_master j then Some j else findMaster parse fs)"

definition reset :: "state \<Rightarrow> state" where
  "reset s = s\<lparr>rooms := [], apertures := []\<rparr>"

text \<open>
  How a call of \<^verbatim>\<open>load\<close> ends. \<open>Loaded\<close>, \<open>NoMaster\<close> (the alert) and \<open>Thrown\<close> (a
  TypeError leaves the async function) carry the Graph State at that moment.
  \<open>Unmodelled\<close>: the document departs from the persisted format in a way that makes
  JavaScript store a value this typed model has no counterpart for (a UI block that is
  not numbers, an aperture side that is not a string, a key that needs a number written
  as a string); the model does not follow the run further.
\<close>

datatype load_result = Loaded state | NoMaster state | Thrown state | Unmodelled

text \<open>
  \<^verbatim>\<open>Object.entries\<close> of a truthy value (the loader applies it to nothing else): the
  members of an object in property order, the elements of an array under their indices,
  nothing for a number or \<^verbatim>\<open>true\<close>; \<open>None\<close> for a string, which is not modelled.
\<close>

fun object_entries :: "json \<Rightarrow> (string \<times> json) list option" where
  "object_entries (JObj ms) = Some ms"
| "object_entries (JArr xs) = Some (zip (map string_of_nat [0..<length xs]) xs)"
| "object_entries (JStr t) = None"
| "object_entries j = Some []"

definition file_name_only :: "string \<Rightarrow> string" where
  "file_name_only filename = rev (takeWhile (\<lambda>c. c \<noteq> CHR ''/'') (rev filename))"

fun decode_number :: "json option \<Rightarrow> real option" where
  "decode_number (Some (JNum r)) = Some r"
| "decode_number j = None"

definition decode_position :: "json option \<Rightarrow> position option" where
  "decode_position j =
     (case j of
        Some (JObj p) \<Rightarrow>
          (case (decode_number (map_of p ''left''), decode_number (map_of p ''top'')) of
             (Some l, Some t) \<Rightarrow> Some \<lparr>p_left = l, p_top = t\<rparr>
           | _ \<Rightarrow> None)
      | _ \<Rightarrow> None)"

definition decode_size :: "json option \<Rightarrow> box_size option" where
  "decode_size j =
     (case j of
        Some (JObj z) \<Rightarrow>
          (case (decode_number (map_of z ''width''), decode_number (map_of z ''height'')) of
             (Some w, Some h) \<Rightarrow> Some \<lparr>s_width = w, s_height = h\<rparr>
           | _ \<Rightarrow> None)
      | _ \<Rightarrow> None)"

definition decode_room_ui :: "json \<Rightarrow> room_ui option" where
  "decode_room_ui j =
     (case (decode_position (member j ''position''), decode_size (member j ''size'')) of
        (Some p, Some z) \<Rightarrow> Some \<lparr>ui_position = p, ui_size = z\<rparr>
      | _ \<Rightarrow> None)"

definition decode_aperture_ui :: "json \<Rightarrow> position option" where
  "decode_aperture_ui j = decode_position (member j ''position'')"

text \<open>
  \<^verbatim>\<open>hasUIData ? uiData[label] : null\<close>, as \<^verbatim>\<open>createRoom\<close> will read it: \<open>Some None\<close>
  is a falsy value (the default box is used), \<open>None\<close> a value outside the model.
\<close>

definition room_ui_data :: "json option \<Rightarrow> string \<Rightarrow> room_ui option option" where
  "room_ui_data uiData label =
     (case uiData of
        None \<Rightarrow> Some None
      | Some JNull \<Rightarrow> Some None
      | Some (JObj u) \<Rightarrow>
          (case map_of u label of
             None \<Rightarrow> if label \<in> set object_prototype_keys then None else Some None
           | Some v \<Rightarrow>
               if \<not> truthy (Some v) then Some None
               else (case decode_room_ui v of None \<Rightarrow> None | Some b \<Rightarrow> Some (Some b)))
      | Some _ \<Rightarrow> None)"

datatype rooms_loop =
  RoomsDone nat "string \<rightharpoonup> room" state | RoomsThrown state | RoomsUnmodelled

text \<open>
  The loop over \<^verbatim>\<open>Object.entries(roomData)\<close>. \<open>gen n\<close> is what the n-th call of
  \<^verbatim>\<open>generateId()\<close> in this load returns; \<open>temp_rooms\<close> maps labels to the new rooms.
\<close>

fun load_rooms ::
  "(nat \<Rightarrow> string) \<Rightarrow> string \<Rightarrow> jsfile list \<Rightarrow> json option \<Rightarrow> (string \<times> json) list \<Rightarrow>
   nat \<Rightarrow> (string \<rightharpoonup> room) \<Rightarrow> state \<Rightarrow> rooms_loop" where
  "load_rooms gen dflt fileList uiData [] n temp_rooms s = RoomsDone n temp_rooms s"
| "load_rooms gen dflt fileList uiData ((label, filename) # es) n temp_rooms s =
     (case filename of
        JStr fname \<Rightarrow>
          (let matchingFile = find (\<lambda>f. fst f = file_name_only fname) fileList;
               text = (case matchingFile of Some f \<Rightarrow> snd f | None \<Rightarrow> ''{}'')
           in case room_ui_data uiData label of
                None \<Rightarrow> RoomsUnmodelled
              | Some roomUIData \<Rightarrow>
                  (case createRoom dflt (gen n)
                          \<lparr>init_label = Some label, init_data = Some text,
                           init_ui = roomUIData\<rparr> s of
                     (room, s1) \<Rightarrow>
                       if label = ''__proto__'' then RoomsUnmodelled
                       else load_rooms gen dflt fileList uiData es (Suc n)
                              (temp_rooms(label \<mapsto> room)) s1))
      | _ \<Rightarrow> RoomsThrown s)"

text \<open>
  \<^verbatim>\<open>temp_rooms[key]\<close>: a room, \<^verbatim>\<open>undefined\<close>, or something \<^verbatim>\<open>Object.prototype\<close>
  provides, which is truthy and is not a room.
\<close>

datatype found = Found room | NotARoom | Undefined

definition temp_lookup :: "(string \<rightharpoonup> room) \<Rightarrow> string \<Rightarrow> found" where
  "temp_lookup temp_rooms key =
     (case temp_rooms key of
        Some r \<Rightarrow> Found r
      | None \<Rightarrow> if key \<in> set object_prototype_keys then NotARoom else Undefined)"

text \<open>A value used as a property key; \<open>None\<close> where a number or an object would be written out.\<close>

fun property_key :: "json option \<Rightarrow> string option" where
  "property_key None = Some ''undefined''"
| "property_key (Some (JStr t)) = Some t"
| "property_key (Some JNull) = Some ''null''"
| "property_key (Some (JBool b)) = Some (if b then ''true'' else ''false'')"
| "property_key (Some j) = None"

text \<open>\<^verbatim>\<open>ap.area\<close> as an argument: absent or \<^verbatim>\<open>null\<close> gives the default.\<close>

fun decode_area :: "json option \<Rightarrow> jsnumber option option" where
  "decode_area None = Some None"
| "decode_area (Some JNull) = Some None"
| "decode_area (Some (JNum r)) = Some (Some (Finite r))"
| "decode_area (Some j) = None"

text \<open>\<^verbatim>\<open>if (hasUIData) aperture.ui = uiData.apertures[i]\<close>.\<close>

datatype ui_assignment = Keep | Overwrite position | UiThrows | UiUnmodelled

definition aperture_ui_data :: "json option \<Rightarrow> nat \<Rightarrow> ui_assignment" where
  "aperture_ui_data uiData i =
     (case uiData of
        None \<Rightarrow> Keep
      | Some JNull \<Rightarrow> Keep
      | Some (JObj u) \<Rightarrow>
          (case map_of u ''apertures'' of
             None \<Rightarrow> UiThrows
           | Some JNull \<Rightarrow> UiThrows
           | Some (JArr xs) \<Rightarrow>
               (case nth_opt xs i of
                  None \<Rightarrow> UiUnmodelled
                | Some x \<Rightarrow>
                    (case decode_aperture_ui x of None \<Rightarrow> UiUnmodelled | Some p \<Rightarrow> Overwrite p))
           | Some _ \<Rightarrow> UiUnmodelled)
      | Some _ \<Rightarrow> UiUnmodelled)"

definition set_aperture_ui :: "string \<Rightarrow> position \<Rightarrow> state \<Rightarrow> state" where
  "set_aperture_ui i p s =
     (case map_get (apertures s) i of
        None \<Rightarrow> s
      | Some ap \<Rightarrow> s\<lparr>apertures := map_set (apertures s) i (ap\<lparr>ap_ui := p\<rparr>)\<rparr>)"

text \<open>
  One descriptor of the aperture loop: \<open>Inr\<close> the state to go on with, \<open>Inl\<close> the end
  of the load.
\<close>

definition load_aperture ::
  "(nat \<Rightarrow> string) \<Rightarrow> json option \<Rightarrow> json \<Rightarrow> nat \<Rightarrow> nat \<Rightarrow> (string \<rightharpoonup> room) \<Rightarrow> state \<Rightarrow>
   load_result + nat \<times> state" where
  "load_aperture gen uiData ap i n temp_rooms s =
     (if ap = JNull then Inl (Thrown s)
      else
        case (property_key (member ap ''origin''), property_key (member ap ''destination'')) of
          (Some origin, Some destination) \<Rightarrow>
            (case temp_lookup temp_rooms origin of
               Undefined \<Rightarrow> Inr (n, s)
             | NotARoom \<Rightarrow> Inl (Thrown s)
             | Found roomA \<Rightarrow>
                 (case temp_lookup temp_rooms destination of
                    NotARoom \<Rightarrow> Inl (Thrown s)
                  | Found roomB \<Rightarrow>
                      (case decode_area (member ap ''area'') of
                         None \<Rightarrow> Inl Unmodelled
                       | Some area \<Rightarrow>
                           (case createApertureBetween (gen n) roomA roomB area s of
                              (aperture, s1) \<Rightarrow>
                                (case aperture_ui_data uiData i of
                                   Keep \<Rightarrow> Inr (Suc n, s1)
                                 | Overwrite p \<Rightarrow> Inr (Suc n, set_aperture_ui (gen n) p s1)
                                 | UiThrows \<Rightarrow> Inl (Thrown s1)
                                 | UiUnmodelled \<Rightarrow> Inl Unmodelled)))
                  | Undefined \<Rightarrow>
                      (case (member ap ''destination'', decode_area (member ap ''area'')) of
                         (Some (JStr side), Some area) \<Rightarrow>
                           (case createGroundedAperture (gen n) roomA side area s of
                              (aperture, s1) \<Rightarrow>
                                (case aperture_ui_data uiData i of
                                   Keep \<Rightarrow> Inr (Suc n, s1)
                                 | Overwrite p \<Rightarrow> Inr (Suc n, set_aperture_ui (gen n) p s1)
                                 | UiThrows \<Rightarrow> Inl (Thrown s1)
                                 | UiUnmodelled \<Rightarrow> Inl Unmodelled))
                       | _ \<Rightarrow> Inl Unmodelled)))
        | _ \<Rightarrow> Inl Unmodelled)"

fun load_apertures ::
  "(nat \<Rightarrow> string) \<Rightarrow> json option \<Rightarrow> json list \<Rightarrow> nat \<Rightarrow> nat \<Rightarrow> (string \<rightharpoonup> room) \<Rightarrow> state \<Rightarrow>
   load_result" where
  "load_apertures gen uiData [] i n temp_rooms s = Loaded s"
| "load_apertures gen uiData (ap # aps) i n temp_rooms s =
     (case load_aperture gen uiData ap i n temp_rooms s of
        Inl r \<Rightarrow> r
      | Inr (n1, s1) \<Rightarrow> load_apertures gen uiData aps (Suc i) n1 temp_rooms s1)"

text \<open>\<^verbatim>\<open>load(fileList)\<close>.\<close>

definition load ::
  "(string \<Rightarrow> json option) \<Rightarrow> (nat \<Rightarrow> string) \<Rightarrow> string \<Rightarrow> jsfile list \<Rightarrow> state \<Rightarrow> load_result" where
  "load parse gen dflt fileList s =
     (case findMaster parse fileList of
        None \<Rightarrow> NoMaster s
      | Some master \<Rightarrow>
          (let s0 = reset s;
               uiData = member master ''ui''
           in case member master ''rooms'' of
                None \<Rightarrow> Unmodelled
              | Some roomData \<Rightarrow>
                  (case object_entries roomData of
                     None \<Rightarrow> Unmodelled
                   | Some es \<Rightarrow>
                       (case load_rooms gen dflt fileList uiData es 0 Map.empty s0 of
                          RoomsThrown s1 \<Rightarrow> Thrown s1
                        | RoomsUnmodelled \<Rightarrow> Unmodelled
                        | RoomsDone n temp_rooms s1 \<Rightarrow>
                            (case member master ''apertures'' of
                               Some (JArr aps) \<Rightarrow>
                                 load_apertures gen uiData aps 0 n temp_rooms s1
                             | _ \<Rightarrow> Thrown s1)))))"

section \<open>Boxes in whole pixels\<close>

text \<open>
  A room whose left, top, width and height are whole numbers of magnitude at most
  \<open>2 ^ 48\<close>: the boxes \<^verbatim>\<open>createRoom\<close> gives by default, and any box given in whole
  pixels.
\<close>

definition whole_pixels :: "real \<Rightarrow> bool" where
  "whole_pixels v = (of_int \<lfloor>v\<rfloor> = v \<and> \<bar>v\<bar> \<le> 2 ^ 48)"

definition pixel_box :: "room \<Rightarrow> bool" where
  "pixel_box r =
     (whole_pixels (p_left (ui_position (room_ui r))) \<and>
      whole_pixels (p_top (ui_position (room_ui r))) \<and>
      whole_pixels (s_width (ui_size (room_ui r))) \<and>
      whole_pixels (s_height (ui_size (room_ui r))))"

section \<open>What a layout holds\<close>

text \<open>
  The content of a Graph State that a saved layout is meant to carry: for every room
  its label, payload and UI box; for every aperture, in registry order, its grounded
  flag, its \<^verbatim>\<open>rooms\<close> entries, its area and its UI position. Loading creates every
  room again under a new identifier, so two layouts are compared under a renaming of the
  room identifiers. Of the \<^verbatim>\<open>rooms\<close> entries of a grounded aperture the first is a
  room identifier and is renamed; what follows are side names, which stay. Every entry
  of an aperture that is not grounded is a room identifier.
\<close>

definition room_view :: "state \<Rightarrow> (string \<times> string \<times> room_ui) multiset" where
  "room_view s =
     mset (map (\<lambda>r. (room_label r, room_data r, room_ui r)) (map_values (rooms s)))"

definition rename_rooms :: "(string \<Rightarrow> string) \<Rightarrow> aperture \<Rightarrow> string list" where
  "rename_rooms f ap =
     (if ap_grounded ap
      then (case ap_rooms ap of [] \<Rightarrow> [] | a # sides \<Rightarrow> f a # sides)
      else map f (ap_rooms ap))"

definition aperture_content ::
  "(string \<Rightarrow> string) \<Rightarrow> aperture \<Rightarrow> bool \<times> string list \<times> jsnumber \<times> position" where
  "aperture_content f ap = (ap_grounded ap, rename_rooms f ap, ap_area ap, ap_ui ap)"

definition room_content ::
  "(string \<Rightarrow> string) \<Rightarrow> string \<times> room \<Rightarrow> string \<times> string \<times> string \<times> room_ui" where
  "room_content f e = (f (fst e), room_label (snd e), room_data (snd e), room_ui (snd e))"

text \<open>
  \<open>f\<close> is an isomorphism from the layout \<open>s\<close> to the layout \<open>s'\<close>: it sends the keys of
  the room registry of \<open>s\<close> to distinct identifiers, the rooms of \<open>s\<close> under their
  renamed keys are the rooms of \<open>s'\<close>, and the apertures of \<open>s\<close> with their room
  identifiers renamed are, one by one in registry order, the apertures of \<open>s'\<close>.
\<close>

definition isomorphism :: "(string \<Rightarrow> string) \<Rightarrow> state \<Rightarrow> state \<Rightarrow> bool" where
  "isomorphism f s s' =
     (distinct (map f (map_keys (rooms s))) \<and>
      mset (map (room_content f) (rooms s)) = mset (map (room_content id) (rooms s')) \<and>
      map (\<lambda>e. aperture_content f (snd e)) (apertures s) =
        map (\<lambda>e. aperture_content id (snd e)) (apertures s'))"

text \<open>
  The layouts whose content survives the file format. A room: its label is not empty
  (a falsy label is replaced on load), has no slash (the loader cuts file names at the
  last slash), is not \<^verbatim>\<open>apertures\<close> (the key of the UI list) nor \<^verbatim>\<open>__proto__\<close>,
  and its payload is not empty. An aperture: \<^verbatim>\<open>rooms\<close> has two entries, the first a
  registered room, the second a registered room or, when grounded, a side that is
  neither a name of \<^verbatim>\<open>Object.prototype\<close> nor the label of a room (the loader
  takes a destination that is a room label for that room); its area is a finite number.
  The room registry is a \<^verbatim>\<open>Map\<close>: no key stands in it twice.
\<close>

definition persistable_room :: "room \<Rightarrow> bool" where
  "persistable_room r =
     (room_label r \<noteq> [] \<and> CHR ''/'' \<notin> set (room_label r) \<and> room_label r \<noteq> ''apertures'' \<and>
      room_label r \<noteq> ''__proto__'' \<and> room_data r \<noteq> [])"

definition persistable_aperture :: "state \<Rightarrow> aperture \<Rightarrow> bool" where
  "persistable_aperture s ap =
     (length (ap_rooms ap) = 2 \<and> map_has (rooms s) (ap_rooms ap ! 0) \<and>
      (if ap_grounded ap
       then ap_rooms ap ! 1 \<notin> set object_prototype_keys \<and>
            ap_rooms ap ! 1 \<notin> set (map room_label (map_values (rooms s)))
       else map_has (rooms s) (ap_rooms ap ! 1)) \<and>
      ap_area ap \<noteq> NonFinite)"

definition persistable :: "state \<Rightarrow> bool" where
  "persistable s =
     (distinct (map_keys (rooms s)) \<and>
      distinct (map room_label (map_values (rooms s))) \<and>
      list_all persistable_room (map_values (rooms s)) \<and>
      list_all (persistable_aperture s) (map_values (apertures s)))"

fun files_of :: "save_result \<Rightarrow> jsfile list" where
  "files_of (Saved files) = files"
| "files_of (SaveThrown files) = files"

text \<open>
  The order in which the properties keyed by the room labels stand in \<^verbatim>\<open>roomFiles\<close>
  and \<^verbatim>\<open>ui_data\<close>: \<open>enter\<close> is \<open>obj_set\<close> on the rooms themselves.
\<close>

fun place_index :: "room \<Rightarrow> room list \<Rightarrow> room list" where
  "place_index r [] = [r]"
| "place_index r (r0 # rs) =
     (if is_array_index (room_label r0) \<and>
         int_of_digits (room_label r0) < int_of_digits (room_label r)
      then r0 # place_index r rs
      else r # r0 # rs)"

definition enter :: "room list \<Rightarrow> room \<Rightarrow> room list" where
  "enter rs r = (if is_array_index (room_label r) then place_index r rs else rs @ [r])"

definition entries_order :: "room list \<Rightarrow> room list" where
  "entries_order rs = foldl enter [] rs"

text \<open>The descriptor \<^verbatim>\<open>save()\<close> writes for an aperture whose origin resolves.\<close>

definition descriptor_of :: "state \<Rightarrow> aperture \<Rightarrow> json" where
  "descriptor_of s ap =
     (case Option.bind (nth_opt (ap_rooms ap) 0) (getRoomLabel s) of
        None \<Rightarrow> JNull
      | Some origin \<Rightarrow>
          descriptor origin
            (if ap_grounded ap then nth_opt (ap_rooms ap) 1
             else Option.bind (nth_opt (ap_rooms ap) 1) (getRoomLabel s))
            (ap_area ap))"

text \<open>The registry entries and \<^verbatim>\<open>temp_rooms\<close> that loading a list of rooms produces.\<close>

fun loaded_rooms :: "(nat \<Rightarrow> string) \<Rightarrow> nat \<Rightarrow> room list \<Rightarrow> (string \<times> room) list" where
  "loaded_rooms gen n [] = []"
| "loaded_rooms gen n (r # rs) = (gen n, r\<lparr>room_id := gen n\<rparr>) # loaded_rooms gen (Suc n) rs"

fun temp_after ::
  "(nat \<Rightarrow> string) \<Rightarrow> nat \<Rightarrow> room list \<Rightarrow> (string \<rightharpoonup> room) \<Rightarrow> (string \<rightharpoonup> room)" where
  "temp_after gen n [] temp_rooms = temp_rooms"
| "temp_after gen n (r # rs) temp_rooms =
     temp_after gen (Suc n) rs (temp_rooms(room_label r \<mapsto> r\<lparr>room_id := gen n\<rparr>))"

text \<open>
  The renaming a load performs: the room registered under \<open>k\<close> is created again under
  the identifier of the room that \<^verbatim>\<open>temp_rooms\<close> holds for its label.
\<close>

definition new_room_id :: "state \<Rightarrow> (string \<rightharpoonup> room) \<Rightarrow> string \<Rightarrow> string" where
  "new_room_id s temp_rooms k =
     (case map_get (rooms s) k of
        None \<Rightarrow> k
      | Some r \<Rightarrow> (case temp_rooms (room_label r) of None \<Rightarrow> k | Some r' \<Rightarrow> room_id r'))"

section \<open>Example layouts\<close>

text \<open>Concrete rooms, apertures and states on which the theorems below are exercised.\<close>

definition room_R1 :: room where
  "room_R1 = \<lparr>room_id = ''r1'', room_label = ''Room 0'', room_data = ''{}'',
              room_ui = default_room_ui\<rparr>"

definition room_R2 :: room where
  "room_R2 = \<lparr>room_id = ''r2'', room_label = ''Room 1'', room_data = ''{}'',
              room_ui = \<lparr>ui_position = \<lparr>p_left = 300, p_top = 70\<rparr>,
                         ui_size = \<lparr>s_width = 100, s_height = 50\<rparr>\<rparr>\<rparr>"

definition empty_state :: state where
  "empty_state = \<lparr>rooms = [], apertures = [], selected = None, linkMode = False,
                  linkSelection = [], linkingDOMElements = [], resultsViewMode = False,
                  transportPathMode = False\<rparr>"

definition two_rooms :: state where
  "two_rooms = empty_state\<lparr>rooms := [(''r1'', room_R1), (''r2'', room_R2)]\<rparr>"

definition aperture_left :: aperture where
  "aperture_left = \<lparr>ap_id = ''a1'', ap_area = Finite 2, ap_grounded = True,
                    ap_rooms = [''r1'', ''Left''], ap_ui = \<lparr>p_left = 38, p_top = 95\<rparr>\<rparr>"

definition grounded_layout :: state where
  "grounded_layout = two_rooms\<lparr>apertures := [(''a1'', aperture_left)]\<rparr>"

text \<open>
  A stand-in for \<^verbatim>\<open>JSON.parse\<close> on the two texts the editor examples use: one is a
  JSON object whose \<^verbatim>\<open>area\<close> is \<^verbatim>\<open>true\<close>, the other is not JSON.
\<close>

definition area_true_text :: string where
  \<open>area_true_text = ''{"area": true}''\<close>

definition parse_editor_examples :: "string \<Rightarrow> json option" where
  "parse_editor_examples t =
     (if t = area_true_text then Some (JObj [(''area'', JBool True)]) else None)"

definition editor_with :: "string \<Rightarrow> editor" where
  "editor_with t = \<lparr>editor_value = t, error_display = False, error_html = []\<rparr>"

definition aperture_selected :: state where
  "aperture_selected = grounded_layout\<lparr>selected := Some ''a1''\<rparr>"

definition drag_gesture :: "gesture_event list" where
  "drag_gesture =
     [MouseDownDrag ''r1'' 50 50
        \<lparr>ev_time = 90, clientX = 60, clientY = 60, rect_left = 0, rect_top = 0\<rparr>,
      MouseMoveDrag \<lparr>ev_time = 100, clientX = 70, clientY = 70, rect_left = 0, rect_top = 0\<rparr>,
      MouseMoveDrag \<lparr>ev_time = 105, clientX = 80, clientY = 80, rect_left = 0, rect_top = 0\<rparr>,
      MouseUpDrag]"

definition validate_ok :: "string \<Rightarrow> bool \<times> string" where
  "validate_ok t = (True, [])"

definition conv_nan :: "json \<Rightarrow> jsnumber option" where
  "conv_nan j = Some NonFinite"



text \<open>A third room, and a layout with two apertures made by the manager.\<close>

definition room_R3 :: room where
  "room_R3 = \<lparr>room_id = ''r3'', room_label = ''Hall'', room_data = ''{ }'',
              room_ui = \<lparr>ui_position = \<lparr>p_left = 10, p_top = 400\<rparr>,
                         ui_size = \<lparr>s_width = 80, s_height = 60\<rparr>\<rparr>\<rparr>"

definition linked_rooms :: state where
  "linked_rooms =
     snd (createApertureBetween ''a1'' room_R1 room_R2 None
       (snd (createApertureBetween ''a0'' room_R3 room_R2 (Some (Finite 3))
          (empty_state\<lparr>rooms := [(''r1'', room_R1), (''r2'', room_R2), (''r3'', room_R3)]\<rparr>))))"

text \<open>A layout whose only room has been renamed to the empty label.\<close>

definition unnamed_room :: state where
  "unnamed_room =
     empty_state\<lparr>rooms := [(''r1'', room_R1\<lparr>room_label := []\<rparr>)]\<rparr>"

text \<open>
  Stand-ins for the platform in the save and load examples: \<^verbatim>\<open>JSON.stringify\<close> writes
  one fixed text, \<^verbatim>\<open>JSON.parse\<close> reads that text as the master document of the given
  state, reads the two payloads of the example rooms as the empty object and rejects
  every other text; \<^verbatim>\<open>generateId()\<close> returns x, xx, xxx, ...
\<close>

definition stringify_stub :: "json \<Rightarrow> string" where
  "stringify_stub j = ''<layout>''"

definition parse_for :: "state \<Rightarrow> string \<Rightarrow> json option" where
  "parse_for s t =
     (if t = ''<layout>'' then master_document s
      else if t = ''{}'' \<or> t = ''{ }'' then Some (JObj [])
      else None)"

definition example_gen :: "nat \<Rightarrow> string" where
  "example_gen n = replicate (Suc n) (CHR ''x'')"

text \<open>
  A stand-in for \<^verbatim>\<open>JSON.parse\<close> on the uploads of the examples: a text whose
  \<^verbatim>\<open>rooms\<close> is an empty map and whose \<^verbatim>\<open>apertures\<close> is an empty object, not a
  list; a text with a \<^verbatim>\<open>rooms\<close> map only; the empty object; anything else is not JSON.
\<close>

definition apertures_object_text :: string where
  \<open>apertures_object_text = ''{"rooms": {}, "apertures": {}}''\<close>

definition rooms_only_text :: string where
  \<open>rooms_only_text = ''{"rooms": {}}''\<close>

definition parse_upload_examples :: "string \<Rightarrow> json option" where
  "parse_upload_examples t =
     (if t = apertures_object_text
      then Some (JObj [(''rooms'', JObj []), (''apertures'', JObj [])])
      else if t = rooms_only_text then Some (JObj [(''rooms'', JObj [])])
      else if t = ''{}'' then Some (JObj [])
      else None)"

text \<open>A layout with a grounded aperture and two apertures between rooms.\<close>

definition three_apertures :: state where
  "three_apertures =
     snd (createGroundedAperture ''a2'' room_R1 ''Left'' (Some (Finite 2)) linked_rooms)"

section \<open>Properties of the containers\<close>

lemma map_set_keys_fresh:
  "k \<notin> set (map fst m) \<Longrightarrow> map_set m k v = m @ [(k, v)]"
  by (induction m) auto

lemma forEach_value_map:
  "forEach_value f m = map (\<lambda>e. (fst e, f (snd e))) m"
  by (induction m) auto

lemma forEach_value_keys: "map fst (forEach_value f m) = map fst m"
  by (simp add: forEach_value_map comp_def)

lemma forEach_value_get:
  "map_of (forEach_value f m) k = map_option f (map_of m k)"
  by (induction m) auto

lemma map_delete_get:
  "map_of (map_delete m k) k' = (if k' = k then None else map_of m k')"
  by (induction m) (auto simp: map_delete_def)

lemma map_delete_absent:
  "k \<notin> set (map fst m) \<Longrightarrow> map_delete m k = m"
  by (induction m) (auto simp: map_delete_def)

lemma filter_absent: "i \<notin> set xs \<Longrightarrow> filter (\<lambda>rid. rid \<noteq> i) xs = xs"
  by (induction xs) auto

lemma digit_char_not_bracket: "k < 10 \<Longrightarrow> CHR ''['' \<noteq> char_of (48 + k :: nat)"
proof
  assume k: "k < 10" and e: "CHR ''['' = char_of (48 + k)"
  have "of_char (char_of (48 + k) :: char) = (48 + k) mod 256"
    by simp
  with e [symmetric] have "(48 + k) mod 256 = (91::nat)" by simp
  with k show False by simp
qed

lemma string_of_nat_no_bracket: "CHR ''['' \<notin> set (string_of_nat n)"
proof (induction n rule: string_of_nat.induct)
  case (1 n)
  show ?case
  proof (cases "n < 10")
    case True
    then show ?thesis
      by (subst string_of_nat.simps) (simp add: digit_char_not_bracket)
  next
    case False
    with 1 have "CHR ''['' \<notin> set (string_of_nat (n div 10))" by simp
    moreover have "n mod 10 < 10" by simp
    ultimately show ?thesis using False
      by (subst string_of_nat.simps) (simp add: digit_char_not_bracket)
  qed
qed

lemma room_never_in_array: "\<not> in_array (room_property_key r) xs"
proof -
  have "room_property_key r \<notin> set (map string_of_nat [0..<length xs])"
  proof
    assume "room_property_key r \<in> set (map string_of_nat [0..<length xs])"
    then obtain n where "string_of_nat n = ''[object Object]''"
      by (auto simp: room_property_key_def)
    then have "CHR ''['' \<in> set (string_of_nat n)" by simp
    then show False using string_of_nat_no_bracket by blast
  qed
  then show ?thesis
    by (simp add: in_array_def room_property_key_def array_prototype_keys_def
        object_prototype_keys_def)
qed

lemma map_set_get_same: "map_of (map_set m k v) k = Some v"
  by (induction m) auto

lemma map_has_keys: "map_has m k \<longleftrightarrow> k \<in> set (map fst m)"
  by (simp add: map_has_def map_of_eq_None_iff)

lemma forEach_value_id:
  "(\<And>e. e \<in> set m \<Longrightarrow> f (snd e) = snd e) \<Longrightarrow> forEach_value f m = m"
  by (induction m) force+

section \<open>Removing a room\<close>

text \<open>
  C2. \<^verbatim>\<open>removeRoom(id)\<close> keeps every aperture, in place, and takes exactly the
  occurrences of \<open>id\<close> out of its \<^verbatim>\<open>rooms\<close> list; the room registry loses the key
  \<open>id\<close> and nothing else; every other field of the state is as before.
\<close>

theorem removeRoom_strips_and_deletes:
  "apertures (removeRoom i s) =
     map (\<lambda>e. (fst e, (snd e)\<lparr>ap_rooms := removeAll i (ap_rooms (snd e))\<rparr>)) (apertures s) \<and>
   map_get (rooms (removeRoom i s)) = (map_get (rooms s))(i := None) \<and>
   map_keys (rooms (removeRoom i s)) = removeAll i (map_keys (rooms s)) \<and>
   removeRoom i s =
     s\<lparr>apertures := apertures (removeRoom i s), rooms := rooms (removeRoom i s)\<rparr>"
proof (intro conjI)
  have "filter (\<lambda>rid. rid \<noteq> i) xs = removeAll i xs" for xs :: "string list"
    by (induction xs) auto
  then show "apertures (removeRoom i s) =
      map (\<lambda>e. (fst e, (snd e)\<lparr>ap_rooms := removeAll i (ap_rooms (snd e))\<rparr>)) (apertures s)"
    by (simp add: removeRoom_def forEach_value_map strip_room_def)
  show "map_get (rooms (removeRoom i s)) = (map_get (rooms s))(i := None)"
    by (rule ext) (simp add: removeRoom_def map_get_def map_delete_get)
  have "map fst (filter (\<lambda>e. fst e \<noteq> i) m) = removeAll i (map fst m)"
    for m :: "(string \<times> room) list"
    by (induction m) auto
  then show "map_keys (rooms (removeRoom i s)) = removeAll i (map_keys (rooms s))"
    by (simp add: removeRoom_def map_keys_def map_delete_def)
  show "removeRoom i s =
      s\<lparr>apertures := apertures (removeRoom i s), rooms := rooms (removeRoom i s)\<rparr>"
    by (simp add: removeRoom_def)
qed

text \<open>
  C10 as stated fails: the side name of a grounded aperture is a key of neither registry,
  yet \<^verbatim>\<open>removeRoom("Left")\<close> takes it out of the aperture's \<^verbatim>\<open>rooms\<close> list.
\<close>

theorem removeRoom_unknown_id_counterexample:
  "\<not> map_has (rooms grounded_layout) ''Left'' \<and>
   \<not> map_has (apertures grounded_layout) ''Left'' \<and>
   map_values (apertures (removeRoom ''Left'' grounded_layout)) =
     [aperture_left\<lparr>ap_rooms := [''r1'']\<rparr>] \<and>
   removeRoom ''Left'' grounded_layout \<noteq> grounded_layout"
proof -
  have a: "apertures (removeRoom ''Left'' grounded_layout) =
      [(''a1'', aperture_left\<lparr>ap_rooms := [''r1'']\<rparr>)]"
    by (simp add: removeRoom_def grounded_layout_def two_rooms_def empty_state_def
        strip_room_def aperture_left_def)
  have b: "apertures grounded_layout = [(''a1'', aperture_left)]"
    by (simp add: grounded_layout_def)
  have c: "aperture_left\<lparr>ap_rooms := [''r1'']\<rparr> \<noteq> aperture_left"
    by (simp add: aperture_left_def)
  from a b c have "removeRoom ''Left'' grounded_layout \<noteq> grounded_layout"
    by (metis list.inject prod.inject)
  moreover have "\<not> map_has (rooms grounded_layout) ''Left''"
    by (simp add: map_has_def grounded_layout_def two_rooms_def empty_state_def)
  moreover have "\<not> map_has (apertures grounded_layout) ''Left''"
    by (simp add: map_has_def grounded_layout_def)
  ultimately show ?thesis using a by (simp add: map_values_def)
qed

text \<open>
  C10, amended. For an identifier that is a key of neither registry and that occurs in
  no aperture's \<^verbatim>\<open>rooms\<close> list, \<^verbatim>\<open>removeRoom\<close> and \<^verbatim>\<open>removeAperture\<close> return
  (neither can raise) and leave the whole state as it was.
\<close>

theorem remove_unknown_id_unchanged:
  assumes "\<not> map_has (rooms s) i" and "\<not> map_has (apertures s) i"
    and "\<forall>ap \<in> set (map_values (apertures s)). i \<notin> set (ap_rooms ap)"
  shows "removeRoom i s = s \<and> removeAperture i s = s"
proof
  have "forEach_value (strip_room i) (apertures s) = apertures s"
  proof (rule forEach_value_id)
    fix e assume "e \<in> set (apertures s)"
    with assms(3) have "i \<notin> set (ap_rooms (snd e))"
      by (simp add: map_values_def)
    then show "strip_room i (snd e) = snd e"
      by (simp add: strip_room_def filter_absent)
  qed
  moreover from assms(1) have "map_delete (rooms s) i = rooms s"
    by (simp add: map_has_keys map_delete_absent)
  ultimately show "removeRoom i s = s"
    by (simp add: removeRoom_def)
  from assms(2) have "map_delete (apertures s) i = apertures s"
    by (simp add: map_has_keys map_delete_absent)
  then show "removeAperture i s = s"
    by (simp add: removeAperture_def)
qed

theorem remove_unknown_id_unchanged_witness:
  "removeRoom ''r9'' grounded_layout = grounded_layout \<and>
   removeAperture ''r9'' grounded_layout = grounded_layout"
proof -
  have 1: "\<not> map_has (rooms grounded_layout) ''r9''"
    by (simp add: map_has_def grounded_layout_def two_rooms_def empty_state_def)
  have 2: "\<not> map_has (apertures grounded_layout) ''r9''"
    by (simp add: map_has_def grounded_layout_def)
  have 3: "\<forall>ap \<in> set (map_values (apertures grounded_layout)). ''r9'' \<notin> set (ap_rooms ap)"
    by (simp add: map_values_def grounded_layout_def aperture_left_def)
  from remove_unknown_id_unchanged [OF 1 2 3] show ?thesis .
qed

section \<open>Rounding to a double\<close>

lemma ilen_pos: "a > 0 \<Longrightarrow> ilen a \<ge> 1"
  by (subst ilen.simps) (induction a rule: ilen.induct, simp add: ilen.simps)

lemma ilen_bounds: "a > 0 \<Longrightarrow> 2 ^ nat (ilen a - 1) \<le> a \<and> a < 2 ^ nat (ilen a)"
proof (induction a rule: ilen.induct)
  case (1 a)
  show ?case
  proof (cases "a = 1")
    case True
    then show ?thesis by (simp add: ilen.simps)
  next
    case False
    with 1 have h: "a div 2 > 0" by simp
    let ?n = "ilen (a div 2)"
    from 1 h have ih: "2 ^ nat (?n - 1) \<le> a div 2 \<and> a div 2 < 2 ^ nat ?n" by simp
    from h have n1: "?n \<ge> 1" by (rule ilen_pos)
    have e: "ilen a = 1 + ?n" using 1 by (subst ilen.simps) simp
    have p: "(2::int) ^ nat ?n = 2 * 2 ^ nat (?n - 1)"
      using n1 by (metis Suc_nat_eq_nat_zadd1 add.commute diff_add_cancel diff_ge_0_iff_ge power_Suc)
    have "2 ^ nat ?n \<le> a" using ih p by linarith
    moreover have "a < 2 * 2 ^ nat ?n" using ih by linarith
    moreover have "nat (1 + ?n) = Suc (nat ?n)" using n1 by simp
    ultimately show ?thesis by (simp add: e)
  qed
qed

lemma pow2_powr: "pow2 e = 2 powr (of_int e)"
  by (simp add: pow2_def powr_real_of_int field_simps)

lemma pow2_pos: "pow2 e > 0"
  by (simp add: pow2_powr)

lemma pow2_add: "pow2 (a + b) = pow2 a * pow2 b"
  by (simp add: pow2_powr powr_add)

lemma pow2_less_iff: "pow2 a < pow2 b \<longleftrightarrow> a < b"
  by (simp add: pow2_powr)

lemma pow2_nat: "e \<ge> 0 \<Longrightarrow> pow2 e = 2 ^ nat e"
  by (simp add: pow2_def)


lemma ilog2_bounds:
  assumes "x > 0"
  shows "pow2 (ilog2 x) \<le> x \<and> x < pow2 (ilog2 x + 1)"
proof (cases "x \<ge> 1")
  case True
  let ?n = "\<lfloor>x\<rfloor>"
  from True have n: "?n > 0" by simp
  from ilen_bounds [OF n] have b: "2 ^ nat (ilen ?n - 1) \<le> ?n" "?n < 2 ^ nat (ilen ?n)" by simp_all
  from ilen_pos [OF n] have l: "ilen ?n \<ge> 1" .
  have "real_of_int (2 ^ nat (ilen ?n - 1)) \<le> real_of_int ?n" using b(1) by (simp only: of_int_le_iff)
  hence "2 ^ nat (ilen ?n - 1) \<le> real_of_int ?n" by simp
  moreover have "real_of_int ?n \<le> x" by linarith
  ultimately have lo: "2 ^ nat (ilen ?n - 1) \<le> x" by linarith
  have "?n + 1 \<le> 2 ^ nat (ilen ?n)" using b(2) by simp
  hence "real_of_int (?n + 1) \<le> real_of_int (2 ^ nat (ilen ?n))" by (simp only: of_int_le_iff)
  hence "real_of_int ?n + 1 \<le> 2 ^ nat (ilen ?n)" by simp
  moreover have "x < real_of_int ?n + 1" by linarith
  ultimately have hi: "x < 2 ^ nat (ilen ?n)" by linarith
  from True l lo hi show ?thesis by (simp add: ilog2_def pow2_def)
next
  case False
  let ?y = "1 / x"
  let ?m = "\<lceil>?y\<rceil> - 1"
  from False assms have y1: "?y > 1" by simp
  hence m: "?m > 0" by (simp add: less_ceiling_iff)
  from ilen_bounds [OF m] have b: "2 ^ nat (ilen ?m - 1) \<le> ?m" "?m < 2 ^ nat (ilen ?m)" by simp_all
  from ilen_pos [OF m] have l: "ilen ?m \<ge> 1" .
  have my: "real_of_int ?m < ?y" "?y \<le> real_of_int ?m + 1" by linarith+
  have "?m + 1 \<le> 2 ^ nat (ilen ?m)" using b(2) by simp
  hence "real_of_int (?m + 1) \<le> real_of_int (2 ^ nat (ilen ?m))" by (simp only: of_int_le_iff)
  hence "real_of_int ?m + 1 \<le> 2 ^ nat (ilen ?m)" by simp
  with my(2) have yhi: "?y \<le> 2 ^ nat (ilen ?m)" by linarith
  have "real_of_int (2 ^ nat (ilen ?m - 1)) \<le> real_of_int ?m" using b(1) by (simp only: of_int_le_iff)
  hence "2 ^ nat (ilen ?m - 1) \<le> real_of_int ?m" by simp
  with my(1) have ylo: "2 ^ nat (ilen ?m - 1) < ?y" by linarith
  have lo: "1 / 2 ^ nat (ilen ?m) \<le> x"
    using yhi assms by (simp add: field_simps)
  have hi: "x < 1 / 2 ^ nat (ilen ?m - 1)"
    using ylo assms by (simp add: field_simps)
  have e: "ilog2 x = - ilen ?m" using False by (simp add: ilog2_def)
  show ?thesis
  proof (cases "ilen ?m = 1")
    case True
    with lo hi show ?thesis by (simp add: e pow2_def)
  next
    case False
    with l have "ilen ?m > 1" by simp
    moreover hence "nat (ilen ?m - 1) = nat (- (1 - ilen ?m))" by simp
    ultimately show ?thesis using lo hi l by (simp add: e pow2_def)
  qed
qed


lemma round_even_of_int: "round_even (of_int n) = n"
  by (simp add: round_even_def)


lemma rd_exact:
  assumes "\<bar>m\<bar> < 2 ^ 53" and "e \<ge> - 1074"
  shows "rd (of_int m * pow2 e) = of_int m * pow2 e"
proof (cases "m = 0")
  case True
  then show ?thesis by (simp add: rd_def)
next
  case False
  let ?x = "of_int m * pow2 e"
  let ?E = "max (ilog2 \<bar>?x\<bar> - 52) (- 1074)"
  have p: "pow2 e > 0" by (rule pow2_pos)
  have x0: "?x \<noteq> 0" using False p by simp
  hence xp: "\<bar>?x\<bar> > 0" by simp
  have "real_of_int \<bar>m\<bar> < real_of_int (2 ^ 53)" using assms(1) by (simp only: of_int_less_iff)
  hence "\<bar>real_of_int m\<bar> < 2 ^ 53" by simp
  hence "\<bar>?x\<bar> < 2 ^ 53 * pow2 e" using p by (simp add: abs_mult)
  also have "pow2 53 = 2 ^ 53" by (simp add: pow2_def)
  hence "2 ^ 53 * pow2 e = pow2 (e + 53)" by (simp add: pow2_add)
  finally have "pow2 (ilog2 \<bar>?x\<bar>) < pow2 (e + 53)"
    using ilog2_bounds [OF xp] by linarith
  hence "ilog2 \<bar>?x\<bar> < e + 53" by (simp add: pow2_less_iff)
  with assms(2) have le: "?E \<le> e" by simp
  have "pow2 e = pow2 (e - ?E) * pow2 ?E" by (simp add: pow2_add [symmetric])
  also have "pow2 (e - ?E) = 2 ^ nat (e - ?E)" using le by (simp add: pow2_nat)
  finally have s: "pow2 e = 2 ^ nat (e - ?E) * pow2 ?E" .
  have "?x / pow2 ?E = of_int m * 2 ^ nat (e - ?E)"
    using pow2_pos [of ?E] by (subst s) simp
  also have "\<dots> = of_int (m * 2 ^ nat (e - ?E))" by simp
  finally have q: "?x / pow2 ?E = of_int (m * 2 ^ nat (e - ?E))" .
  have "rd ?x = of_int (round_even (?x / pow2 ?E)) * pow2 ?E"
    using x0 by (simp add: rd_def Let_def)
  also have "\<dots> = of_int (m * 2 ^ nat (e - ?E)) * pow2 ?E"
    by (simp only: q round_even_of_int)
  also have "\<dots> = of_int m * (2 ^ nat (e - ?E) * pow2 ?E)" by simp
  also have "\<dots> = ?x" by (simp only: s [symmetric])
  finally show ?thesis .
qed

lemma rd_quarters:
  assumes "of_int \<lfloor>4 * x\<rfloor> = 4 * x" and "\<bar>x\<bar> < 2 ^ 51"
  shows "rd x = x"
proof -
  let ?k = "\<lfloor>4 * x\<rfloor>"
  have "pow2 (- 2) = 1 / 4" by (simp add: pow2_def)
  moreover have "x = of_int ?k / 4" using assms(1) by linarith
  ultimately have x: "of_int ?k * pow2 (- 2) = x" by (simp only:)
  have "\<bar>real_of_int ?k\<bar> = 4 * \<bar>x\<bar>" by (simp only: assms(1))
  hence "real_of_int \<bar>?k\<bar> < real_of_int (2 ^ 53)" using assms(2) by simp
  hence "\<bar>?k\<bar> < 2 ^ 53" by (simp only: of_int_less_iff)
  from rd_exact [OF this, of "- 2"] show ?thesis by (simp only: x)
qed

lemma rd_grid:
  assumes "x = of_int k / 4" and "\<bar>x\<bar> < 2 ^ 51"
  shows "rd x = x"
proof -
  have "4 * x = of_int k" using assms(1) by simp
  hence "of_int \<lfloor>4 * x\<rfloor> = 4 * x" by simp
  thus ?thesis using assms(2) by (rule rd_quarters)
qed

lemma whole_pixels_int: "whole_pixels v \<Longrightarrow> \<exists>i. v = of_int i"
  unfolding whole_pixels_def by metis

text \<open>On whole pixels no operation of the midpoint rounds.\<close>

lemma midpoint_whole_pixels:
  assumes "whole_pixels aL" and "whole_pixels aW" and "whole_pixels bL" and "whole_pixels bW"
  shows "fdiv (fadd (fadd (fadd aL (fdiv aW 2)) bL) (fdiv bW 2)) 2 =
         ((aL + aW / 2) + (bL + bW / 2)) / 2"
proof -
  from assms obtain a w b v where i: "aL = of_int a" "aW = of_int w" "bL = of_int b" "bW = of_int v"
    using whole_pixels_int by metis
  from assms have bd: "\<bar>aL\<bar> \<le> 2 ^ 48" "\<bar>aW\<bar> \<le> 2 ^ 48" "\<bar>bL\<bar> \<le> 2 ^ 48" "\<bar>bW\<bar> \<le> 2 ^ 48"
    by (simp_all add: whole_pixels_def)
  have 1: "fdiv aW 2 = aW / 2"
    unfolding fdiv_def using bd by (intro rd_grid [where k = "2 * w"]) (simp_all add: i)
  have 2: "fdiv bW 2 = bW / 2"
    unfolding fdiv_def using bd by (intro rd_grid [where k = "2 * v"]) (simp_all add: i)
  have 3: "fadd aL (aW / 2) = aL + aW / 2"
    unfolding fadd_def using bd by (intro rd_grid [where k = "4 * a + 2 * w"]) (simp_all add: i)
  have 4: "fadd (aL + aW / 2) bL = aL + aW / 2 + bL"
    unfolding fadd_def using bd
    by (intro rd_grid [where k = "4 * a + 2 * w + 4 * b"]) (simp_all add: i)
  have 5: "fadd (aL + aW / 2 + bL) (bW / 2) = aL + aW / 2 + bL + bW / 2"
    unfolding fadd_def using bd
    by (intro rd_grid [where k = "4 * a + 2 * w + 4 * b + 2 * v"]) (simp_all add: i)
  have 6: "fdiv (aL + aW / 2 + bL + bW / 2) 2 = (aL + aW / 2 + bL + bW / 2) / 2"
    unfolding fdiv_def using bd
    by (intro rd_grid [where k = "2 * a + w + 2 * b + v"]) (simp_all add: i)
  show ?thesis by (simp add: 1 2 3 4 5 6)
qed

lemma between_left_pixels:
  assumes "pixel_box A" and "pixel_box B"
  shows "between_left A B =
     ((p_left (ui_position (room_ui A)) + s_width (ui_size (room_ui A)) / 2) +
      (p_left (ui_position (room_ui B)) + s_width (ui_size (room_ui B)) / 2)) / 2"
  unfolding between_left_def
  using assms by (intro midpoint_whole_pixels) (simp_all add: pixel_box_def)

lemma between_top_pixels:
  assumes "pixel_box A" and "pixel_box B"
  shows "between_top A B =
     ((p_top (ui_position (room_ui A)) + s_height (ui_size (room_ui A)) / 2) +
      (p_top (ui_position (room_ui B)) + s_height (ui_size (room_ui B)) / 2)) / 2"
  unfolding between_top_def
  using assms by (intro midpoint_whole_pixels) (simp_all add: pixel_box_def)

lemma example_rooms_pixel_box: "pixel_box room_R1" "pixel_box room_R2" "pixel_box room_R3"
  by (simp_all add: pixel_box_def whole_pixels_def room_R1_def room_R2_def room_R3_def
      default_room_ui_def)

lemma linked_rooms_state:
  "linked_rooms =
     empty_state\<lparr>rooms := [(''r1'', room_R1), (''r2'', room_R2), (''r3'', room_R3)],
       apertures :=
         [(''a0'', \<lparr>ap_id = ''a0'', ap_area = Finite 3, ap_grounded = False,
                    ap_rooms = [''r3'', ''r2''], ap_ui = \<lparr>p_left = 200, p_top = 525 / 2\<rparr>\<rparr>),
          (''a1'', \<lparr>ap_id = ''a1'', ap_area = Finite 1, ap_grounded = False,
                    ap_rooms = [''r1'', ''r2''], ap_ui = \<lparr>p_left = 230, p_top = 95\<rparr>\<rparr>)]\<rparr>"
proof -
  have l32: "between_left room_R3 room_R2 = 200"
    by (simp add: between_left_pixels example_rooms_pixel_box)
      (simp add: room_R2_def room_R3_def)
  have t32: "between_top room_R3 room_R2 = 525 / 2"
    by (simp add: between_top_pixels example_rooms_pixel_box)
      (simp add: room_R2_def room_R3_def)
  have l12: "between_left room_R1 room_R2 = 230"
    by (simp add: between_left_pixels example_rooms_pixel_box)
      (simp add: room_R1_def room_R2_def default_room_ui_def)
  have t12: "between_top room_R1 room_R2 = 95"
    by (simp add: between_top_pixels example_rooms_pixel_box)
      (simp add: room_R1_def room_R2_def default_room_ui_def)
  have i: "room_id room_R1 = ''r1''" "room_id room_R2 = ''r2''" "room_id room_R3 = ''r3''"
    by (simp_all add: room_R1_def room_R2_def room_R3_def)
  show ?thesis
    by (simp add: linked_rooms_def createApertureBetween_def Let_def l32 t32 l12 t12 i
        empty_state_def area_or_default_def)
qed

section \<open>Creating an aperture between two rooms\<close>




section \<open>Link mode\<close>

text \<open>
  C3. In link mode with one room selected, \<^verbatim>\<open>linkRoom\<close> with a second room appends
  exactly one aperture to the registry, not grounded, between the two rooms, and
  \<^verbatim>\<open>linkClickBanner(side)\<close> appends exactly one grounded aperture from the room to
  the side; both leave link mode with an empty selection. The identifier
  \<^verbatim>\<open>generateId()\<close> returns is new to the registry.
\<close>

theorem link_wizard_completes:
  assumes "linkMode s" and "linkSelection s = [firstRoom]" and "\<not> map_has (apertures s) nid"
  shows "(\<exists>ap. apertures (linkRoom nid secondRoom el s) = apertures s @ [(nid, ap)] \<and>
            ap_grounded ap = False \<and>
            ap_rooms ap = [room_id firstRoom, room_id secondRoom]) \<and>
         linkMode (linkRoom nid secondRoom el s) = False \<and>
         linkSelection (linkRoom nid secondRoom el s) = [] \<and>
         rooms (linkRoom nid secondRoom el s) = rooms s \<and>
         (\<exists>ap. apertures (linkClickBanner nid side s) = apertures s @ [(nid, ap)] \<and>
            ap_grounded ap = True \<and>
            ap_rooms ap = [room_id firstRoom, side]) \<and>
         linkMode (linkClickBanner nid side s) = False \<and>
         linkSelection (linkClickBanner nid side s) = [] \<and>
         rooms (linkClickBanner nid side s) = rooms s"
proof -
  from assms(3) have fresh: "nid \<notin> set (map fst (apertures s))"
    by (simp add: map_has_keys)
  have r: "\<not> in_array (room_property_key secondRoom) [firstRoom]"
    by (rule room_never_in_array)
  show ?thesis
    using assms(1,2) r
    by (simp add: linkRoom_def linkClickBanner_def Let_def createApertureBetween_def
        createGroundedAperture_def disableLinkMode_def map_set_keys_fresh [OF fresh])
qed

theorem link_wizard_completes_witness:
  "(\<exists>ap. apertures (linkRoom ''a2'' room_R2 ''r2'' (grounded_layout\<lparr>linkMode := True, linkSelection := [room_R1]\<rparr>)) =
            [(''a1'', aperture_left), (''a2'', ap)] \<and>
          ap_grounded ap = False \<and> ap_rooms ap = [''r1'', ''r2'']) \<and>
   (\<exists>ap. apertures (linkClickBanner ''a2'' ''Back'' (grounded_layout\<lparr>linkMode := True, linkSelection := [room_R1]\<rparr>)) =
            [(''a1'', aperture_left), (''a2'', ap)] \<and>
          ap_grounded ap = True \<and> ap_rooms ap = [''r1'', ''Back''])"
proof -
  let ?s = "grounded_layout\<lparr>linkMode := True, linkSelection := [room_R1]\<rparr>"
  have 1: "linkMode ?s" by simp
  have 2: "linkSelection ?s = [room_R1]" by simp
  have 3: "\<not> map_has (apertures ?s) ''a2''"
    by (simp add: map_has_def grounded_layout_def)
  have 4: "apertures ?s = [(''a1'', aperture_left)]"
    by (simp add: grounded_layout_def)
  from link_wizard_completes [OF 1 2 3, of room_R2 "''r2''" "''Back''"] show ?thesis
    unfolding 4 by (simp add: room_R1_def room_R2_def)
qed

text \<open>
  C4. The guard of \<^verbatim>\<open>linkRoom\<close> against a second selection of the same room never
  fires: after entering link mode, clicking the same room twice puts it in the selection
  twice and registers an aperture whose two \<^verbatim>\<open>rooms\<close> entries are that one room.
\<close>

theorem linkRoom_same_room_twice:
  "linkSelection (linkRoom m A e1 (enableLinkMode s)) = [A] \<and>
   map_option ap_rooms
     (map_get (apertures (linkRoom n A e2 (linkRoom m A e1 (enableLinkMode s)))) n) =
   Some [room_id A, room_id A]"
proof -
  let ?s1 = "linkRoom m A e1 (enableLinkMode s)"
  have s1: "?s1 = (enableLinkMode s)\<lparr>linkSelection := [A],
      linkingDOMElements := linkingDOMElements s @ [e1]\<rparr>"
    by (simp add: linkRoom_def enableLinkMode_def room_never_in_array Let_def)
  have "map_option ap_rooms (map_get (apertures (linkRoom n A e2 ?s1)) n) =
      Some [room_id A, room_id A]"
    unfolding s1
    by (simp add: linkRoom_def enableLinkMode_def room_never_in_array Let_def
        createApertureBetween_def disableLinkMode_def map_get_def map_set_get_same)
  with s1 show ?thesis by simp
qed

section \<open>Editing an aperture's area\<close>

lemma set_area_get:
  "map_has (apertures s) i \<Longrightarrow>
   map_option ap_area (map_get (apertures (set_area i a s)) i) = Some a"
  by (auto simp: set_area_def map_has_def map_get_def map_set_get_same)

text \<open>
  C7 as stated fails: with an aperture selected, the text whose \<^verbatim>\<open>area\<close> is
  \<^verbatim>\<open>true\<close> supplies no numeric area, yet no message is shown and the area, 2 before,
  becomes \<^verbatim>\<open>Number(true)\<close>, which is 1.
\<close>

theorem area_edit_non_numeric_counterexample:
  "map_option ap_area (map_get (apertures aperture_selected) ''a1'') = Some (Finite 2) \<and>
   parse_editor_examples area_true_text = Some (JObj [(''area'', JBool True)]) \<and>
   fst (onChange parse_editor_examples validate_ok conv_nan aperture_selected
          (editor_with area_true_text)) = Returned \<and>
   map_option ap_area
     (map_get (apertures (fst (snd (onChange parse_editor_examples validate_ok conv_nan
        aperture_selected (editor_with area_true_text))))) ''a1'') = Some (Finite 1) \<and>
   error_display (snd (snd (onChange parse_editor_examples validate_ok conv_nan aperture_selected
        (editor_with area_true_text)))) = False"
  by (simp add: onChange_def aperture_selected_def grounded_layout_def two_rooms_def
      empty_state_def map_has_def map_get_def parse_editor_examples_def safeParseJSON_def
      editor_with_def check_aperture_def set_area_def aperture_left_def Let_def)

text \<open>
  C7, amended. With an aperture selected: when the text does not parse, or the parsed
  value has no \<^verbatim>\<open>area\<close> member, or that member is falsy (\<^verbatim>\<open>null\<close>, \<^verbatim>\<open>false\<close>,
  0, the empty string), the edit is rejected with the inline message and the state is
  unchanged; when the member is truthy and \<^verbatim>\<open>Number\<close> converts it, the message is
  hidden and the area becomes the converted value, whether or not the member was a number.
\<close>

theorem area_edit_rejected_or_converted:
  assumes "selected s = Some i" and "\<not> map_has (rooms s) i" and "map_has (apertures s) i"
  shows "(\<not> truthy (member (safeParseJSON parse (editor_value ed) JNull) ''area'') \<longrightarrow>
            onChange parse validate conv s ed =
              (Returned, s,
               ed\<lparr>error_display := True, error_html := ''Area of aperture not defined''\<rparr>)) \<and>
         (\<forall>v a. member (safeParseJSON parse (editor_value ed) JNull) ''area'' = Some v \<and>
                truthy (Some v) \<and> js_Number conv v = Some a \<longrightarrow>
            onChange parse validate conv s ed =
              (Returned, set_area i a s, ed\<lparr>error_display := False\<rparr>) \<and>
            map_option ap_area (map_get (apertures (set_area i a s)) i) = Some a)"
proof (intro conjI impI allI)
  assume "\<not> truthy (member (safeParseJSON parse (editor_value ed) JNull) ''area'')"
  with assms(1,2,3)
  show "onChange parse validate conv s ed =
      (Returned, s, ed\<lparr>error_display := True, error_html := ''Area of aperture not defined''\<rparr>)"
    by (auto simp: onChange_def check_aperture_def Let_def split: option.splits)
next
  fix v a
  assume h: "member (safeParseJSON parse (editor_value ed) JNull) ''area'' = Some v \<and>
      truthy (Some v) \<and> js_Number conv v = Some a"
  then have "safeParseJSON parse (editor_value ed) JNull \<noteq> JNull"
    by (cases "safeParseJSON parse (editor_value ed) JNull") auto
  with assms(1,2,3) h
  show "onChange parse validate conv s ed =
      (Returned, set_area i a s, ed\<lparr>error_display := False\<rparr>)"
    by (simp add: onChange_def check_aperture_def Let_def)
  from assms(3) show "map_option ap_area (map_get (apertures (set_area i a s)) i) = Some a"
    by (rule set_area_get)
qed

theorem area_edit_rejected_or_converted_witness:
  "onChange parse_editor_examples validate_ok conv_nan aperture_selected (editor_with ''{ area'') =
     (Returned, aperture_selected,
      (editor_with ''{ area'')\<lparr>error_display := True,
         error_html := ''Area of aperture not defined''\<rparr>) \<and>
   onChange parse_editor_examples validate_ok conv_nan aperture_selected (editor_with area_true_text) =
     (Returned, set_area ''a1'' (Finite 1) aperture_selected,
      (editor_with area_true_text)\<lparr>error_display := False\<rparr>)"
proof -
  have 1: "selected aperture_selected = Some ''a1''"
    by (simp add: aperture_selected_def)
  have 2: "\<not> map_has (rooms aperture_selected) ''a1''"
    by (simp add: aperture_selected_def grounded_layout_def two_rooms_def empty_state_def
        map_has_def)
  have 3: "map_has (apertures aperture_selected) ''a1''"
    by (simp add: aperture_selected_def grounded_layout_def map_has_def)
  have 4: "\<not> truthy (member (safeParseJSON parse_editor_examples
      (editor_value (editor_with ''{ area'')) JNull) ''area'')"
    by (simp add: safeParseJSON_def parse_editor_examples_def editor_with_def
        area_true_text_def)
  have 5: "member (safeParseJSON parse_editor_examples
      (editor_value (editor_with area_true_text)) JNull) ''area'' = Some (JBool True) \<and>
      truthy (Some (JBool True)) \<and> js_Number conv_nan (JBool True) = Some (Finite 1)"
    by (simp add: safeParseJSON_def parse_editor_examples_def editor_with_def)
  from area_edit_rejected_or_converted [OF 1 2 3, of parse_editor_examples
      "editor_with ''{ area''" validate_ok conv_nan] 4
  have a: "onChange parse_editor_examples validate_ok conv_nan aperture_selected
      (editor_with ''{ area'') =
     (Returned, aperture_selected,
      (editor_with ''{ area'')\<lparr>error_display := True,
         error_html := ''Area of aperture not defined''\<rparr>)"
    by blast
  from area_edit_rejected_or_converted [OF 1 2 3, of parse_editor_examples
      "editor_with area_true_text" validate_ok conv_nan] 5
  have b: "onChange parse_editor_examples validate_ok conv_nan aperture_selected
      (editor_with area_true_text) =
     (Returned, set_area ''a1'' (Finite 1) aperture_selected,
      (editor_with area_true_text)\<lparr>error_display := False\<rparr>)"
    by blast
  from a b show ?thesis by simp
qed

section \<open>Throttled rendering\<close>

lemma spaced_snoc:
  "spaced delay ts \<Longrightarrow> ts = [] \<or> now - last ts \<ge> delay \<Longrightarrow> spaced delay (ts @ [now])"
  by (induction delay ts rule: spaced.induct) auto

lemma throttledRender_inv: "render_inv d \<Longrightarrow> render_inv (throttledRender now d)"
  by (auto simp: render_inv_def throttledRender_def throttle_def Let_def intro: spaced_snoc)

lemma render_inv_world: "render_inv (d\<lparr>world := w\<rparr>) = render_inv d"
  by (simp add: render_inv_def)

lemma handle_event_inv: "render_inv d \<Longrightarrow> render_inv (handle_event ev d)"
proof (cases ev)
  case (MouseMoveDrag e)
  assume "render_inv d"
  then show ?thesis using MouseMoveDrag
    by (auto simp: onDrag_def Let_def render_inv_world split: option.splits
        intro!: throttledRender_inv)
next
  case (MouseMoveResize e)
  assume "render_inv d"
  then show ?thesis using MouseMoveResize
    by (auto simp: onResize_def Let_def render_inv_world split: option.splits
        intro!: throttledRender_inv)
qed (auto simp: render_inv_def startDrag_def startResize_def stopDrag_def stopResize_def)

lemma handle_events_inv: "render_inv d \<Longrightarrow> render_inv (handle_events evs d)"
  by (induction evs arbitrary: d) (auto simp: handle_event_inv)

text \<open>
  C8 as stated fails in its second half: a drag whose moves arrive at 100 ms and 105 ms
  renders once, at 100 ms. The move at 105 ms writes the position (70, 70) to the model,
  the renderer has drawn (60, 60), and after pointer-up no run is pending: the throttle
  starts no timer.
\<close>

theorem final_drag_position_not_rendered_counterexample:
  "render_times (handle_events drag_gesture (new_DragResizeManager two_rooms)) = [100] \<and>
   dragging (handle_events drag_gesture (new_DragResizeManager two_rooms)) = None \<and>
   map_option (\<lambda>r. ui_position (room_ui r))
     (map_get (rooms (world (handle_events drag_gesture (new_DragResizeManager two_rooms))))
        ''r1'') = Some \<lparr>p_left = 70, p_top = 70\<rparr> \<and>
   map_option (\<lambda>r. ui_position (room_ui r))
     (map_get (rooms (rendered (handle_events drag_gesture (new_DragResizeManager two_rooms))))
        ''r1'') = Some \<lparr>p_left = 60, p_top = 60\<rparr>"
  by (simp add: drag_gesture_def new_DragResizeManager_def two_rooms_def empty_state_def
      startDrag_def onDrag_def stopDrag_def throttledRender_def throttle_def updateUIData_def
      setPosition_def map_get_def Let_def room_R1_def room_R2_def default_room_ui_def)

text \<open>
  C8, amended. Whatever the pointer events and their times, any two successive runs of
  the renderer are at least 16 ms apart; a move is drawn at once exactly when 16 ms have
  passed since the last run, and otherwise the picture stays as it was (the throttle
  schedules no later run).
\<close>

theorem renderer_runs_spaced:
  "spaced 16 (render_times (handle_events evs (new_DragResizeManager s))) \<and>
   rendered (onDrag e d) =
     (if dragging d \<noteq> None \<and> ev_time e - throttle_last d \<ge> 16
      then world (onDrag e d) else rendered d) \<and>
   rendered (onResize e d) =
     (if resizing d \<noteq> None \<and> ev_time e - throttle_last d \<ge> 16
      then world (onResize e d) else rendered d)"
proof (intro conjI)
  have "render_inv (new_DragResizeManager s)"
    by (simp add: render_inv_def new_DragResizeManager_def)
  then have "render_inv (handle_events evs (new_DragResizeManager s))"
    by (rule handle_events_inv)
  then show "spaced 16 (render_times (handle_events evs (new_DragResizeManager s)))"
    by (simp add: render_inv_def)
  show "rendered (onDrag e d) =
     (if dragging d \<noteq> None \<and> ev_time e - throttle_last d \<ge> 16
      then world (onDrag e d) else rendered d)"
    by (auto simp: onDrag_def throttledRender_def throttle_def Let_def split: option.splits)
  show "rendered (onResize e d) =
     (if resizing d \<noteq> None \<and> ev_time e - throttle_last d \<ge> 16
      then world (onResize e d) else rendered d)"
    by (auto simp: onResize_def throttledRender_def throttle_def Let_def split: option.splits)
qed

section \<open>Saving\<close>

lemma string_of_nat_0: "string_of_nat 0 = ''0''"
  by (simp add: string_of_nat.simps char_of_def bit_Suc_0_iff)

lemma not_index_Room: "\<not> is_array_index (CHR ''R'' # t)"
  by (simp add: is_array_index_def is_digit_def)

lemma not_index_apertures: "\<not> is_array_index ''apertures''"
  by (simp add: is_array_index_def is_digit_def)

text \<open>
  C9. After \<^verbatim>\<open>removeRoom\<close> has left an aperture with one entry in \<^verbatim>\<open>rooms\<close>,
  \<^verbatim>\<open>save()\<close> writes that aperture's UI position but no descriptor for it: the master
  document has one descriptor (Room 0 to Room 1, whose aperture sits at (230, 95)) and
  two UI positions, the first of them the orphan's.
\<close>

theorem save_misaligned_after_removeRoom:
  "master_document (removeRoom ''r3'' linked_rooms) =
     Some (JObj
       [(''rooms'', JObj [(''Room 0'', JStr ''room_Room 0.json''),
                          (''Room 1'', JStr ''room_Room 1.json'')]),
        (''apertures'', JArr [descriptor ''Room 0'' (Some ''Room 1'') (Finite 1)]),
        (''ui'', JObj
           [(''Room 0'', json_of_room_ui (room_ui room_R1)),
            (''Room 1'', json_of_room_ui (room_ui room_R2)),
            (''apertures'',
             JArr [json_of_aperture_ui \<lparr>p_left = 200, p_top = 525 / 2\<rparr>,
                   json_of_aperture_ui \<lparr>p_left = 230, p_top = 95\<rparr>])])])"
proof -
  have s: "removeRoom ''r3'' linked_rooms =
      empty_state\<lparr>rooms := [(''r1'', room_R1), (''r2'', room_R2)],
        apertures :=
          [(''a0'', \<lparr>ap_id = ''a0'', ap_area = Finite 3, ap_grounded = False,
                     ap_rooms = [''r2''], ap_ui = \<lparr>p_left = 200, p_top = 525 / 2\<rparr>\<rparr>),
           (''a1'', \<lparr>ap_id = ''a1'', ap_area = Finite 1, ap_grounded = False,
                     ap_rooms = [''r1'', ''r2''], ap_ui = \<lparr>p_left = 230, p_top = 95\<rparr>\<rparr>)]\<rparr>"
    by (simp add: removeRoom_def linked_rooms_state empty_state_def strip_room_def
        map_delete_def)
  have l: "room_label room_R1 = ''Room 0''" "room_label room_R2 = ''Room 1''"
    by (simp_all add: room_R1_def room_R2_def)
  show ?thesis
    unfolding s
    by (simp add: master_document_def map_values_def l empty_state_def Let_def nth_opt_def
        getRoomLabel_def map_get_def obj_set_def not_index_apertures not_index_Room
        room_filename_def)
qed

section \<open>Loading\<close>

lemma findMaster_none:
  "\<forall>f \<in> set fileList. \<not> is_master (safeParseJSON parse (snd f) JNull) \<Longrightarrow>
   findMaster parse fileList = None"
  by (induction fileList) (auto simp: Let_def)

text \<open>
  C6 as stated fails: an upload whose only JSON has a \<^verbatim>\<open>rooms\<close> map and an
  \<^verbatim>\<open>apertures\<close> member that is an object, not a list, passes the truthiness test of
  \<^verbatim>\<open>findMaster\<close>; \<^verbatim>\<open>load\<close> resets the Graph State and then throws on
  \<^verbatim>\<open>apertureData.entries()\<close>, leaving both registries empty.
\<close>

theorem load_resets_on_non_list_apertures_counterexample:
  "safeParseJSON parse_upload_examples apertures_object_text JNull =
     JObj [(''rooms'', JObj []), (''apertures'', JObj [])] \<and>
   load parse_upload_examples example_gen ''{}'' [(''layout.json'', apertures_object_text)]
     grounded_layout = Thrown (reset grounded_layout) \<and>
   rooms (reset grounded_layout) = [] \<and>
   apertures (reset grounded_layout) = [] \<and>
   rooms grounded_layout = [(''r1'', room_R1), (''r2'', room_R2)]"
  by (simp add: load_def safeParseJSON_def parse_upload_examples_def is_master_def Let_def
      reset_def grounded_layout_def two_rooms_def empty_state_def)

text \<open>
  C6, amended. When no uploaded file parses to a value whose \<^verbatim>\<open>rooms\<close> and
  \<^verbatim>\<open>apertures\<close> members are both truthy, \<^verbatim>\<open>load\<close> ends with the notice and the
  Graph State it was given, unchanged.
\<close>

theorem load_without_master_unchanged:
  assumes "\<forall>f \<in> set fileList. \<not> is_master (safeParseJSON parse (snd f) JNull)"
  shows "load parse gen dflt fileList s = NoMaster s"
proof -
  from assms have "findMaster parse fileList = None"
    by (rule findMaster_none)
  then show ?thesis by (simp add: load_def)
qed

theorem load_without_master_unchanged_witness:
  "load parse_upload_examples example_gen ''{}''
     [(''room_Room 0.json'', ''{}''), (''notes.json'', rooms_only_text), (''x.txt'', ''hello'')]
     grounded_layout = NoMaster grounded_layout"
proof -
  have "\<forall>f \<in> set [(''room_Room 0.json'', ''{}''), (''notes.json'', rooms_only_text),
      (''x.txt'', ''hello'')].
      \<not> is_master (safeParseJSON parse_upload_examples (snd f) JNull)"
    by (simp add: is_master_def safeParseJSON_def parse_upload_examples_def
        apertures_object_text_def rooms_only_text_def)
  from load_without_master_unchanged [OF this] show ?thesis .
qed

text \<open>
  C1 as stated fails: a layout whose one room has the empty label has distinct labels;
  saved and loaded again, the room is called Room 0, because \<^verbatim>\<open>createRoom\<close> replaces
  a falsy label by its default.
\<close>

theorem round_trip_empty_label_counterexample:
  "distinct (map room_label (map_values (rooms unnamed_room))) \<and>
   map room_label (map_values (rooms unnamed_room)) = [[]] \<and>
   save stringify_stub unnamed_room =
     Saved [(''room_.json'', ''{}''), (''layout_master.json'', ''<layout>'')] \<and>
   load (parse_for unnamed_room) example_gen ''{}''
     [(''room_.json'', ''{}''), (''layout_master.json'', ''<layout>'')] empty_state =
     Loaded (empty_state\<lparr>rooms := [(''x'', room_R1\<lparr>room_id := ''x''\<rparr>)]\<rparr>) \<and>
   room_label (room_R1\<lparr>room_id := ''x''\<rparr>) = ''Room 0''"
proof -
  have m: "master_document unnamed_room =
      Some (JObj [(''rooms'', JObj [([], JStr ''room_.json'')]),
                  (''apertures'', JArr []),
                  (''ui'', JObj [([], json_of_room_ui default_room_ui),
                                 (''apertures'', JArr [])])])"
    by (simp add: master_document_def unnamed_room_def empty_state_def map_values_def
        Let_def room_filename_def obj_set_def is_array_index_def is_digit_def room_R1_def)
  have sv: "save stringify_stub unnamed_room =
      Saved [(''room_.json'', ''{}''), (''layout_master.json'', ''<layout>'')]"
    by (simp add: save_def m stringify_stub_def)
      (simp add: unnamed_room_def empty_state_def map_values_def Let_def room_filename_def
        room_R1_def)
  have fm: "findMaster (parse_for unnamed_room)
      [(''room_.json'', ''{}''), (''layout_master.json'', ''<layout>'')] =
      master_document unnamed_room"
    by (simp add: parse_for_def safeParseJSON_def is_master_def Let_def m)
  have ui: "room_ui_data
      (Some (JObj [([], json_of_room_ui default_room_ui), (''apertures'', JArr [])])) [] =
      Some (Some default_room_ui)"
    by (simp add: room_ui_data_def json_of_room_ui_def decode_room_ui_def
        decode_position_def decode_size_def json_of_position_def json_of_size_def)
  have ld: "load (parse_for unnamed_room) example_gen ''{}''
      [(''room_.json'', ''{}''), (''layout_master.json'', ''<layout>'')] empty_state =
      Loaded (empty_state\<lparr>rooms := [(''x'', room_R1\<lparr>room_id := ''x''\<rparr>)]\<rparr>)"
    unfolding load_def fm m
    by (simp add: Let_def ui file_name_only_def createRoom_def new_Room_def str_or_def
        reset_def empty_state_def example_gen_def room_R1_def string_of_nat_0)
  show ?thesis using sv ld
    by (simp add: unnamed_room_def empty_state_def map_values_def room_R1_def)
qed

section \<open>Saving and loading again\<close>

subsection \<open>What \<^verbatim>\<open>save\<close> writes\<close>

lemma insert_index_map:
  "insert_index (room_label r) (g r) (map (\<lambda>x. (room_label x, g x)) rs) =
   map (\<lambda>x. (room_label x, g x)) (place_index r rs)"
  by (induction rs) auto

lemma obj_set_map:
  assumes "room_label r \<noteq> ''__proto__''" and "room_label r \<notin> set (map room_label rs)"
  shows "obj_set (map (\<lambda>x. (room_label x, g x)) rs) (room_label r) (g r) =
         map (\<lambda>x. (room_label x, g x)) (enter rs r)"
proof -
  have "map fst (map (\<lambda>x. (room_label x, g x)) rs) = map room_label rs"
    by (simp add: comp_def)
  with assms show ?thesis
    by (simp add: obj_set_def enter_def insert_index_map)
qed

lemma mset_place_index: "mset (place_index r rs) = add_mset r (mset rs)"
  by (induction rs) auto

lemma mset_enter: "mset (enter rs r) = add_mset r (mset rs)"
  by (simp add: enter_def mset_place_index)

lemma mset_foldl_enter: "mset (foldl enter acc rs) = mset acc + mset rs"
  by (induction rs arbitrary: acc) (auto simp: mset_enter)

lemma set_enter: "set (enter rs r) = insert r (set rs)"
  using mset_enter [of rs r] by (metis set_mset_add_mset_insert set_mset_mset)

lemma distinct_labels_enter:
  "distinct (map room_label (enter acc r @ rs)) = distinct (map room_label (acc @ r # rs))"
proof -
  have "mset (map room_label (enter acc r @ rs)) = mset (map room_label (acc @ r # rs))"
    by (simp add: mset_enter)
  then show ?thesis by (rule mset_eq_imp_distinct_iff)
qed

lemma save_rooms_acc:
  assumes "distinct (map room_label (acc @ rs))"
    and "\<forall>r \<in> set rs. room_label r \<noteq> ''__proto__''"
  shows "save_rooms rs files
           (map (\<lambda>x. (room_label x, JStr (room_filename (room_label x)))) acc)
           (map (\<lambda>x. (room_label x, json_of_room_ui (room_ui x))) acc) =
         (files @ map (\<lambda>x. (room_filename (room_label x), room_data x)) rs,
          map (\<lambda>x. (room_label x, JStr (room_filename (room_label x)))) (foldl enter acc rs),
          map (\<lambda>x. (room_label x, json_of_room_ui (room_ui x))) (foldl enter acc rs))"
  using assms
proof (induction rs arbitrary: acc files)
  case Nil
  then show ?case by simp
next
  case (Cons r rs)
  have fresh: "room_label r \<notin> set (map room_label acc)"
    using Cons.prems(1) by auto
  have proto: "room_label r \<noteq> ''__proto__''"
    using Cons.prems(2) by simp
  have d: "distinct (map room_label (enter acc r @ rs))"
    using Cons.prems(1) by (simp only: distinct_labels_enter)
  have p: "\<forall>r \<in> set rs. room_label r \<noteq> ''__proto__''"
    using Cons.prems(2) by simp
  show ?case
    using Cons.IH [OF d p]
    by (simp add: Let_def
        obj_set_map [OF proto fresh, of "\<lambda>x. JStr (room_filename (room_label x))"]
        obj_set_map [OF proto fresh, of "\<lambda>x. json_of_room_ui (room_ui x)"])
qed

lemma persistable_aperture_rooms:
  assumes "persistable_aperture s ap"
  shows "\<exists>a b ra. ap_rooms ap = [a, b] \<and> map_of (rooms s) a = Some ra \<and>
           (if ap_grounded ap
            then b \<notin> set object_prototype_keys \<and>
                 b \<notin> set (map room_label (map_values (rooms s))) \<and>
                 descriptor_of s ap = descriptor (room_label ra) (Some b) (ap_area ap)
            else (\<exists>rb. map_of (rooms s) b = Some rb \<and>
                   descriptor_of s ap =
                     descriptor (room_label ra) (Some (room_label rb)) (ap_area ap)))"
proof -
  from assms have len: "length (ap_rooms ap) = 2"
    by (simp add: persistable_aperture_def)
  then obtain a b where ab: "ap_rooms ap = [a, b]"
    by (cases "ap_rooms ap"; cases "tl (ap_rooms ap)") auto
  from assms ab obtain ra where ra: "map_of (rooms s) a = Some ra"
    by (auto simp: persistable_aperture_def map_has_def)
  then have la: "getRoomLabel s a = Some (room_label ra)"
    by (simp add: getRoomLabel_def map_get_def)
  show ?thesis
  proof (cases "ap_grounded ap")
    case True
    with assms ab have "b \<notin> set object_prototype_keys"
      and "b \<notin> set (map room_label (map_values (rooms s)))"
      by (simp_all add: persistable_aperture_def)
    moreover have "descriptor_of s ap = descriptor (room_label ra) (Some b) (ap_area ap)"
      using True ab la by (simp add: descriptor_of_def nth_opt_def)
    ultimately show ?thesis using True ab ra by simp
  next
    case False
    with assms ab obtain rb where rb: "map_of (rooms s) b = Some rb"
      by (auto simp: persistable_aperture_def map_has_def)
    then have lb: "getRoomLabel s b = Some (room_label rb)"
      by (simp add: getRoomLabel_def map_get_def)
    have "descriptor_of s ap = descriptor (room_label ra) (Some (room_label rb)) (ap_area ap)"
      using False ab la lb by (simp add: descriptor_of_def nth_opt_def)
    with False ab ra rb show ?thesis by simp
  qed
qed

lemma save_apertures_acc:
  assumes "list_all (persistable_aperture s) aps"
  shows "save_apertures s aps D U =
         Some (D @ map (descriptor_of s) aps,
               U @ map (\<lambda>ap. json_of_aperture_ui (ap_ui ap)) aps)"
  using assms
proof (induction aps arbitrary: D U)
  case Nil
  then show ?case by simp
next
  case (Cons ap aps)
  from Cons.prems have p: "persistable_aperture s ap" and ps: "list_all (persistable_aperture s) aps"
    by simp_all
  from persistable_aperture_rooms [OF p] obtain a b ra where
    ab: "ap_rooms ap = [a, b]" and ra: "map_of (rooms s) a = Some ra" and
    g: "if ap_grounded ap
        then b \<notin> set object_prototype_keys \<and>
             b \<notin> set (map room_label (map_values (rooms s))) \<and>
             descriptor_of s ap = descriptor (room_label ra) (Some b) (ap_area ap)
        else (\<exists>rb. map_of (rooms s) b = Some rb \<and>
               descriptor_of s ap =
                 descriptor (room_label ra) (Some (room_label rb)) (ap_area ap))"
    by blast
  from ra have la: "getRoomLabel s a = Some (room_label ra)"
    by (simp add: getRoomLabel_def map_get_def)
  show ?case
  proof (cases "ap_grounded ap")
    case True
    with g have "descriptor_of s ap = descriptor (room_label ra) (Some b) (ap_area ap)"
      by simp
    then show ?thesis
      using True ab la Cons.IH [OF ps]
      by (simp add: Let_def nth_opt_def)
  next
    case False
    with g obtain rb where rb: "map_of (rooms s) b = Some rb" and
      de: "descriptor_of s ap = descriptor (room_label ra) (Some (room_label rb)) (ap_area ap)"
      by auto
    from rb have lb: "getRoomLabel s b = Some (room_label rb)"
      by (simp add: getRoomLabel_def map_get_def)
    show ?thesis
      using False ab la lb de Cons.IH [OF ps]
      by (simp add: Let_def nth_opt_def)
  qed
qed

lemma obj_set_apertures:
  assumes "\<forall>r \<in> set rs. room_label r \<noteq> ''apertures''"
  shows "obj_set (map (\<lambda>x. (room_label x, g x)) rs) ''apertures'' v =
         map (\<lambda>x. (room_label x, g x)) rs @ [(''apertures'', v)]"
proof -
  have "''apertures'' \<notin> set (map fst (map (\<lambda>x. (room_label x, g x)) rs))"
    using assms by (auto simp: comp_def)
  then show ?thesis
    by (simp add: obj_set_def not_index_apertures)
qed

lemma persistable_master_document:
  assumes "persistable s"
  shows "master_document s =
     Some (JObj
       [(''rooms'', JObj (map (\<lambda>x. (room_label x, JStr (room_filename (room_label x))))
                          (entries_order (map_values (rooms s))))),
        (''apertures'', JArr (map (descriptor_of s) (map_values (apertures s)))),
        (''ui'', JObj (map (\<lambda>x. (room_label x, json_of_room_ui (room_ui x)))
                        (entries_order (map_values (rooms s))) @
                       [(''apertures'',
                         JArr (map (\<lambda>ap. json_of_aperture_ui (ap_ui ap))
                                 (map_values (apertures s))))]))])"
proof -
  let ?rs = "map_values (rooms s)"
  from assms have d: "distinct (map room_label ([] @ ?rs))"
    and pr: "list_all persistable_room ?rs"
    and pa: "list_all (persistable_aperture s) (map_values (apertures s))"
    by (simp_all add: persistable_def)
  from pr have np: "\<forall>r \<in> set ?rs. room_label r \<noteq> ''__proto__''"
    by (auto simp: list_all_iff persistable_room_def)
  from pr have na: "\<forall>r \<in> set (entries_order ?rs). room_label r \<noteq> ''apertures''"
    using mset_foldl_enter [of "[]" ?rs]
    by (auto simp: list_all_iff persistable_room_def entries_order_def
        dest!: arg_cong [of _ _ set_mset])
  have sr: "save_rooms ?rs [] [] [] =
      (map (\<lambda>x. (room_filename (room_label x), room_data x)) ?rs,
       map (\<lambda>x. (room_label x, JStr (room_filename (room_label x)))) (entries_order ?rs),
       map (\<lambda>x. (room_label x, json_of_room_ui (room_ui x))) (entries_order ?rs))"
    using save_rooms_acc [OF d np, of "[]"] by (simp add: entries_order_def)
  show ?thesis
    by (simp add: master_document_def sr save_apertures_acc [OF pa, of "[]" "[]", simplified]
        obj_set_apertures [OF na])
qed

lemma persistable_save:
  assumes "persistable s" and "master_document s = Some m"
  shows "save stringify s =
     Saved (map (\<lambda>x. (room_filename (room_label x), room_data x)) (map_values (rooms s)) @
            [(''layout_master.json'', stringify m)])"
proof -
  let ?rs = "map_values (rooms s)"
  from assms(1) have d: "distinct (map room_label ([] @ ?rs))"
    and pr: "list_all persistable_room ?rs"
    by (simp_all add: persistable_def)
  from pr have np: "\<forall>r \<in> set ?rs. room_label r \<noteq> ''__proto__''"
    by (auto simp: list_all_iff persistable_room_def)
  have sr: "save_rooms ?rs [] [] [] =
      (map (\<lambda>x. (room_filename (room_label x), room_data x)) ?rs,
       map (\<lambda>x. (room_label x, JStr (room_filename (room_label x)))) (entries_order ?rs),
       map (\<lambda>x. (room_label x, json_of_room_ui (room_ui x))) (entries_order ?rs))"
    using save_rooms_acc [OF d np, of "[]"] by (simp add: entries_order_def)
  show ?thesis
    using assms(2) by (simp add: save_def sr)
qed

subsection \<open>What \<^verbatim>\<open>load\<close> reads\<close>

lemma findMaster_finds:
  assumes "is_master m"
    and "\<forall>f \<in> set fl. safeParseJSON parse (snd f) JNull = m \<or>
                     \<not> is_master (safeParseJSON parse (snd f) JNull)"
    and "\<exists>f \<in> set fl. safeParseJSON parse (snd f) JNull = m"
  shows "findMaster parse fl = Some m"
  using assms(2,3)
proof (induction fl)
  case Nil
  then show ?case by simp
next
  case (Cons f fl)
  show ?case
  proof (cases "is_master (safeParseJSON parse (snd f) JNull)")
    case True
    with Cons.prems(1) have "safeParseJSON parse (snd f) JNull = m" by auto
    with True show ?thesis by (simp add: Let_def)
  next
    case False
    with Cons.prems(2) assms(1) have "\<exists>f \<in> set fl. safeParseJSON parse (snd f) JNull = m"
      by auto
    with Cons.IH Cons.prems(1) False show ?thesis by (simp add: Let_def)
  qed
qed

lemma find_by_name:
  "distinct (map fst fl) \<Longrightarrow> (k, v) \<in> set fl \<Longrightarrow> find (\<lambda>f. fst f = k) fl = Some (k, v)"
  by (induction fl) force+

lemma file_name_only_no_slash:
  assumes "CHR ''/'' \<notin> set f"
  shows "file_name_only f = f"
proof -
  have "\<forall>c \<in> set (rev f). c \<noteq> CHR ''/''"
    using assms by auto
  then have "takeWhile (\<lambda>c. c \<noteq> CHR ''/'') (rev f) = rev f"
    by (subst takeWhile_eq_all_conv)
  then show ?thesis unfolding file_name_only_def by (simp only: rev_rev_ident)
qed

lemma decode_room_ui_json: "decode_room_ui (json_of_room_ui u) = Some u"
  by (simp add: decode_room_ui_def json_of_room_ui_def decode_position_def decode_size_def
      json_of_position_def json_of_size_def)

lemma decode_aperture_ui_json: "decode_aperture_ui (json_of_aperture_ui p) = Some p"
  by (simp add: decode_aperture_ui_def json_of_aperture_ui_def decode_position_def
      json_of_position_def)

lemma room_ui_data_found:
  "map_of ud l = Some (json_of_room_ui u) \<Longrightarrow> room_ui_data (Some (JObj ud)) l = Some (Some u)"
  by (simp add: room_ui_data_def decode_room_ui_json) (simp add: json_of_room_ui_def)

lemma createRoom_loaded:
  assumes "room_label r \<noteq> []" and "room_data r \<noteq> []" and "i \<notin> set (map fst (rooms t))"
  shows "createRoom dflt i
           \<lparr>init_label = Some (room_label r), init_data = Some (room_data r),
            init_ui = Some (room_ui r)\<rparr> t =
         (r\<lparr>room_id := i\<rparr>, t\<lparr>rooms := rooms t @ [(i, r\<lparr>room_id := i\<rparr>)]\<rparr>)"
  using assms
  by (simp add: createRoom_def new_Room_def str_or_def Let_def map_set_keys_fresh)

lemma load_rooms_loaded:
  assumes "inj gen"
    and "map fst (rooms t) = map gen [0..<n]"
    and "\<forall>r \<in> set xs. persistable_room r"
    and "\<forall>r \<in> set xs. map_of ud (room_label r) = Some (json_of_room_ui (room_ui r))"
    and "\<forall>r \<in> set xs. find (\<lambda>f. fst f = room_filename (room_label r)) fl =
                         Some (room_filename (room_label r), room_data r)"
  shows "load_rooms gen dflt fl (Some (JObj ud))
           (map (\<lambda>x. (room_label x, JStr (room_filename (room_label x)))) xs) n temp t =
         RoomsDone (n + length xs) (temp_after gen n xs temp)
           (t\<lparr>rooms := rooms t @ loaded_rooms gen n xs\<rparr>)"
  using assms(2-5)
proof (induction xs arbitrary: n temp t)
  case Nil
  then show ?case by simp
next
  case (Cons r xs)
  from Cons.prems(2) have pr: "persistable_room r" by simp
  then have lab: "room_label r \<noteq> []" and dat: "room_data r \<noteq> []"
    and proto: "room_label r \<noteq> ''__proto__''" and slash: "CHR ''/'' \<notin> set (room_label r)"
    by (simp_all add: persistable_room_def)
  have fresh: "gen n \<notin> set (map fst (rooms t))"
    using Cons.prems(1) by (auto simp: inj_eq [OF assms(1)])
  have fn: "file_name_only (room_filename (room_label r)) = room_filename (room_label r)"
    using slash by (intro file_name_only_no_slash) (simp add: room_filename_def)
  have fi: "find (\<lambda>f. fst f = room_filename (room_label r)) fl =
      Some (room_filename (room_label r), room_data r)"
    using Cons.prems(4) by simp
  have ui: "room_ui_data (Some (JObj ud)) (room_label r) = Some (Some (room_ui r))"
    using Cons.prems(3) by (intro room_ui_data_found) simp
  let ?t1 = "t\<lparr>rooms := rooms t @ [(gen n, r\<lparr>room_id := gen n\<rparr>)]\<rparr>"
  have k1: "map fst (rooms ?t1) = map gen [0..<Suc n]"
    using Cons.prems(1) by simp
  have ih: "load_rooms gen dflt fl (Some (JObj ud))
      (map (\<lambda>x. (room_label x, JStr (room_filename (room_label x)))) xs) (Suc n)
      (temp(room_label r \<mapsto> r\<lparr>room_id := gen n\<rparr>)) ?t1 =
      RoomsDone (Suc n + length xs)
        (temp_after gen (Suc n) xs (temp(room_label r \<mapsto> r\<lparr>room_id := gen n\<rparr>)))
        (?t1\<lparr>rooms := rooms ?t1 @ loaded_rooms gen (Suc n) xs\<rparr>)"
    using Cons.prems(2,3,4) by (intro Cons.IH [OF k1]) simp_all
  show ?case
    by (simp add: fn fi ui createRoom_loaded [OF lab dat fresh] proto ih)
qed

lemma loaded_rooms_keys: "map fst (loaded_rooms gen n xs) = map gen [n..<n + length xs]"
proof (induction xs arbitrary: n)
  case Nil
  then show ?case by simp
next
  case (Cons r xs)
  have "[n..<n + length (r # xs)] = n # [Suc n..<Suc n + length xs]"
    by (simp add: upt_rec)
  with Cons show ?case by simp
qed

lemma loaded_rooms_view:
  "map (\<lambda>e. (room_label (snd e), room_data (snd e), room_ui (snd e))) (loaded_rooms gen n xs) =
   map (\<lambda>r. (room_label r, room_data r, room_ui r)) xs"
  by (induction xs arbitrary: n) auto

lemma temp_after_other:
  "l \<notin> set (map room_label xs) \<Longrightarrow> temp_after gen n xs temp l = temp l"
  by (induction xs arbitrary: n temp) auto

lemma temp_after_room:
  assumes "distinct (map room_label xs)" and "r \<in> set xs"
  shows "\<exists>i. temp_after gen n xs temp (room_label r) = Some (r\<lparr>room_id := gen i\<rparr>) \<and>
             (gen i, r\<lparr>room_id := gen i\<rparr>) \<in> set (loaded_rooms gen n xs)"
  using assms
proof (induction xs arbitrary: n temp)
  case Nil
  then show ?case by simp
next
  case (Cons x xs)
  show ?case
  proof (cases "r = x")
    case True
    with Cons.prems(1) have "room_label r \<notin> set (map room_label xs)" by simp
    then have "temp_after gen (Suc n) xs (temp(room_label x \<mapsto> x\<lparr>room_id := gen n\<rparr>))
        (room_label r) = (temp(room_label x \<mapsto> x\<lparr>room_id := gen n\<rparr>)) (room_label r)"
      by (rule temp_after_other)
    with True show ?thesis by auto
  next
    case False
    with Cons.prems have "distinct (map room_label xs)" and "r \<in> set xs" by simp_all
    from Cons.IH [OF this, of "Suc n" "temp(room_label x \<mapsto> x\<lparr>room_id := gen n\<rparr>)"]
    obtain i where
      1: "temp_after gen (Suc n) xs (temp(room_label x \<mapsto> x\<lparr>room_id := gen n\<rparr>))
            (room_label r) = Some (r\<lparr>room_id := gen i\<rparr>)" and
      2: "(gen i, r\<lparr>room_id := gen i\<rparr>) \<in> set (loaded_rooms gen (Suc n) xs)"
      by blast
    show ?thesis
      using 1 2 by (intro exI [of _ i]) (simp del: fun_upd_apply)
  qed
qed

lemma member_descriptor:
  "member (descriptor origin destination area) ''origin'' = Some (JStr origin)"
  "member (descriptor origin (Some d) area) ''destination'' = Some (JStr d)"
  "member (descriptor origin destination area) ''area'' = Some (json_of_number area)"
  "descriptor origin destination area \<noteq> JNull"
  by (simp_all add: descriptor_def split: option.splits)

lemma map_set_append_fresh:
  "k \<notin> set (map fst m) \<Longrightarrow> map_set (m @ [(k, v)]) k w = m @ [(k, w)]"
  by (induction m) auto

lemma map_of_append_fresh:
  "k \<notin> set (map fst m) \<Longrightarrow> map_of (m @ [(k, v)]) k = Some v"
  by (induction m) auto

lemma set_aperture_ui_new:
  assumes "k \<notin> set (map fst (apertures t))"
  shows "set_aperture_ui k p (t\<lparr>apertures := apertures t @ [(k, ap)]\<rparr>) =
         t\<lparr>apertures := apertures t @ [(k, ap\<lparr>ap_ui := p\<rparr>)]\<rparr>"
proof -
  have 1: "map_get (apertures t @ [(k, ap)]) k = Some ap"
    unfolding map_get_def using assms by (rule map_of_append_fresh)
  show ?thesis
    by (simp add: set_aperture_ui_def 1 map_set_append_fresh [OF assms])
qed

lemma getRoomLabel_rooms: "rooms t' = rooms t \<Longrightarrow> getRoomLabel t' = getRoomLabel t"
  by (rule ext) (simp add: getRoomLabel_def)

lemma load_aperture_persistable:
  assumes pa: "persistable_aperture s ap"
    and link: "\<forall>k r. map_of (rooms s) k = Some r \<longrightarrow> temp (room_label r) \<noteq> None"
    and dom: "\<forall>l. temp l \<noteq> None \<longrightarrow> l \<in> set (map room_label (map_values (rooms s)))"
    and ui: "map_of ud ''apertures'' = Some (JArr U)"
    and nth: "nth_opt U i = Some (json_of_aperture_ui (ap_ui ap))"
    and fresh: "gen n \<notin> set (map fst (apertures t))"
  shows "\<exists>ap'. load_aperture gen (Some (JObj ud)) (descriptor_of s ap) i n temp t =
                 Inr (Suc n, t\<lparr>apertures := apertures t @ [(gen n, ap')]\<rparr>) \<and>
               aperture_content id ap' = aperture_content (new_room_id s temp) ap"
proof -
  from persistable_aperture_rooms [OF pa] obtain a b ra where
    ab: "ap_rooms ap = [a, b]" and ma: "map_of (rooms s) a = Some ra" and
    g: "if ap_grounded ap
        then b \<notin> set object_prototype_keys \<and>
             b \<notin> set (map room_label (map_values (rooms s))) \<and>
             descriptor_of s ap = descriptor (room_label ra) (Some b) (ap_area ap)
        else (\<exists>rb. map_of (rooms s) b = Some rb \<and>
               descriptor_of s ap =
                 descriptor (room_label ra) (Some (room_label rb)) (ap_area ap))"
    by blast
  from ma link obtain ra' where ra: "temp (room_label ra) = Some ra'"
    by blast
  have na: "new_room_id s temp a = room_id ra'"
    by (simp add: new_room_id_def map_get_def ma ra)
  from pa obtain x where ar: "ap_area ap = Finite x"
    by (cases "ap_area ap") (auto simp: persistable_aperture_def)
  have uia: "aperture_ui_data (Some (JObj ud)) i = Overwrite (ap_ui ap)"
    by (simp add: aperture_ui_data_def ui nth decode_aperture_ui_json)
  show ?thesis
  proof (cases "ap_grounded ap")
    case False
    with g obtain rb where mb: "map_of (rooms s) b = Some rb" and
      de: "descriptor_of s ap = descriptor (room_label ra) (Some (room_label rb)) (Finite x)"
      by (auto simp: ar)
    from mb link obtain rb' where rb: "temp (room_label rb) = Some rb'"
      by blast
    have nb: "new_room_id s temp b = room_id rb'"
      by (simp add: new_room_id_def map_get_def mb rb)
    let ?ap = "\<lparr>ap_id = gen n, ap_area = Finite x, ap_grounded = False,
        ap_rooms = [room_id ra', room_id rb'], ap_ui = ap_ui ap\<rparr>"
    have "load_aperture gen (Some (JObj ud)) (descriptor_of s ap) i n temp t =
        Inr (Suc n, t\<lparr>apertures := apertures t @ [(gen n, ?ap)]\<rparr>)"
      unfolding de
      by (simp add: load_aperture_def member_descriptor temp_lookup_def ra rb
          json_of_number_def createApertureBetween_def Let_def uia area_or_default_def
          map_set_keys_fresh [OF fresh] set_aperture_ui_new [OF fresh])
    moreover have "aperture_content id ?ap = aperture_content (new_room_id s temp) ap"
      using False by (simp add: aperture_content_def rename_rooms_def ab na nb ar)
    ultimately show ?thesis by (intro exI [of _ ?ap]) simp
  next
    case True
    with g have np: "b \<notin> set object_prototype_keys"
      and nl: "b \<notin> set (map room_label (map_values (rooms s)))"
      and de: "descriptor_of s ap = descriptor (room_label ra) (Some b) (Finite x)"
      by (simp_all add: ar)
    from dom nl have tb: "temp b = None" by blast
    let ?ap = "\<lparr>ap_id = gen n, ap_area = Finite x, ap_grounded = True,
        ap_rooms = [room_id ra', b], ap_ui = ap_ui ap\<rparr>"
    have "load_aperture gen (Some (JObj ud)) (descriptor_of s ap) i n temp t =
        Inr (Suc n, t\<lparr>apertures := apertures t @ [(gen n, ?ap)]\<rparr>)"
      unfolding de using np
      by (simp add: load_aperture_def member_descriptor temp_lookup_def ra tb
          json_of_number_def createGroundedAperture_def Let_def uia area_or_default_def
          map_set_keys_fresh [OF fresh] set_aperture_ui_new [OF fresh])
    moreover have "aperture_content id ?ap = aperture_content (new_room_id s temp) ap"
      using True by (simp add: aperture_content_def rename_rooms_def ab na ar)
    ultimately show ?thesis by (intro exI [of _ ?ap]) simp
  qed
qed

lemma drop_Cons_nth:
  assumes "drop i U = y # ys"
  shows "nth_opt U i = Some y \<and> drop (Suc i) U = ys"
proof -
  have i: "i < length U"
  proof (rule ccontr)
    assume "\<not> i < length U"
    then have "drop i U = []" by simp
    with assms show False by simp
  qed
  then have "U ! i = hd (drop i U)"
    by (simp add: hd_drop_conv_nth)
  moreover have "drop (Suc i) U = tl (drop i U)"
    by (simp add: drop_Suc tl_drop)
  ultimately show ?thesis using assms i by (simp add: nth_opt_def)
qed

lemma load_apertures_persistable:
  assumes "inj gen"
    and "list_all (persistable_aperture s) aps"
    and "\<forall>k r. map_of (rooms s) k = Some r \<longrightarrow> temp (room_label r) \<noteq> None"
    and "\<forall>l. temp l \<noteq> None \<longrightarrow> l \<in> set (map room_label (map_values (rooms s)))"
    and "map_of ud ''apertures'' = Some (JArr U)"
    and "drop i U = map (\<lambda>ap. json_of_aperture_ui (ap_ui ap)) aps"
    and "map fst (apertures t) = map gen [n0..<n]" and "n0 \<le> n"
  shows "\<exists>t2. load_apertures gen (Some (JObj ud)) (map (descriptor_of s) aps) i n temp t =
                Loaded t2 \<and>
              t2 = t\<lparr>apertures := apertures t2\<rparr> \<and>
              map (\<lambda>e. aperture_content id (snd e)) (apertures t2) =
                map (\<lambda>e. aperture_content id (snd e)) (apertures t) @
                map (aperture_content (new_room_id s temp)) aps"
  using assms(2,6,7,8)
proof (induction aps arbitrary: i n t)
  case Nil
  then show ?case by simp
next
  case (Cons ap aps)
  from Cons.prems(1) have pa: "persistable_aperture s ap"
    and ps: "list_all (persistable_aperture s) aps" by simp_all
  from Cons.prems(2) have dr: "drop i U =
      json_of_aperture_ui (ap_ui ap) # map (\<lambda>ap. json_of_aperture_ui (ap_ui ap)) aps"
    by simp
  from drop_Cons_nth [OF dr] have nth: "nth_opt U i = Some (json_of_aperture_ui (ap_ui ap))"
    and dr': "drop (Suc i) U = map (\<lambda>ap. json_of_aperture_ui (ap_ui ap)) aps"
    by simp_all
  have fresh: "gen n \<notin> set (map fst (apertures t))"
    using Cons.prems(3) by (auto simp: inj_eq [OF assms(1)])
  from load_aperture_persistable [where gen = gen and n = n,
      OF pa assms(3) assms(4) assms(5) nth fresh]
  obtain ap' where
    st: "load_aperture gen (Some (JObj ud)) (descriptor_of s ap) i n temp t =
      Inr (Suc n, t\<lparr>apertures := apertures t @ [(gen n, ap')]\<rparr>)" and
    co: "aperture_content id ap' = aperture_content (new_room_id s temp) ap"
    by blast
  let ?t1 = "t\<lparr>apertures := apertures t @ [(gen n, ap')]\<rparr>"
  have k1: "map fst (apertures ?t1) = map gen [n0..<Suc n]"
    using Cons.prems(3,4) by simp
  have n1: "n0 \<le> Suc n" using Cons.prems(4) by simp
  from Cons.IH [OF ps dr' k1 n1] obtain t2 where
    l2: "load_apertures gen (Some (JObj ud)) (map (descriptor_of s) aps) (Suc i) (Suc n) temp ?t1 =
      Loaded t2" and
    f2: "t2 = ?t1\<lparr>apertures := apertures t2\<rparr>" and
    v2: "map (\<lambda>e. aperture_content id (snd e)) (apertures t2) =
      map (\<lambda>e. aperture_content id (snd e)) (apertures ?t1) @
      map (aperture_content (new_room_id s temp)) aps"
    by blast
  have "load_apertures gen (Some (JObj ud)) (map (descriptor_of s) (ap # aps)) i n temp t =
      Loaded t2"
    by (simp add: st l2)
  moreover have "t2 = t\<lparr>apertures := apertures t2\<rparr>"
  proof -
    have "?t1\<lparr>apertures := apertures t2\<rparr> = t\<lparr>apertures := apertures t2\<rparr>"
      by simp
    with f2 show ?thesis by (rule trans)
  qed
  moreover have "map (\<lambda>e. aperture_content id (snd e)) (apertures t2) =
      map (\<lambda>e. aperture_content id (snd e)) (apertures t) @
      map (aperture_content (new_room_id s temp)) (ap # aps)"
    using v2 by (simp add: co)
  ultimately show ?case by blast
qed

text \<open>
  Saving a layout whose apertures are those of \<open>s\<close> with the room identifiers renamed,
  where a renamed identifier leads to a room of the same label, writes the descriptors
  and UI entries that saving \<open>s\<close> writes.
\<close>

lemma rename_rooms_id: "rename_rooms id ap = ap_rooms ap"
  by (simp add: rename_rooms_def split: list.split)

lemma save_apertures_renamed:
  assumes "list_all (persistable_aperture s) aps"
    and "map (aperture_content id) aps' = map (aperture_content f) aps"
    and "\<forall>k. map_has (rooms s) k \<longrightarrow> getRoomLabel s' (f k) = getRoomLabel s k"
  shows "save_apertures s' aps' D U = save_apertures s aps D U"
  using assms(1,2)
proof (induction aps arbitrary: aps' D U)
  case Nil
  then show ?case by simp
next
  case (Cons ap aps)
  from Cons.prems(2) obtain ap' aps'' where a': "aps' = ap' # aps''"
    by (cases aps') simp_all
  from Cons.prems(2) have "aperture_content id ap' # map (aperture_content id) aps'' =
      aperture_content f ap # map (aperture_content f) aps"
    unfolding a' by (simp only: list.map)
  then have cc: "aperture_content id ap' = aperture_content f ap \<and>
      map (aperture_content id) aps'' = map (aperture_content f) aps"
    by (simp only: list.inject)
  note c = cc [THEN conjunct1] and cs = cc [THEN conjunct2]
  from Cons.prems(1) have p: "persistable_aperture s ap"
    and ps: "list_all (persistable_aperture s) aps" by simp_all
  note ih = Cons.IH [OF ps cs]
  from c have g: "ap_grounded ap' = ap_grounded ap" and ar: "ap_area ap' = ap_area ap"
    and u: "ap_ui ap' = ap_ui ap" and r: "ap_rooms ap' = rename_rooms f ap"
    by (simp_all add: aperture_content_def rename_rooms_id)
  from p obtain a b where ab: "ap_rooms ap = [a, b]"
    by (cases "ap_rooms ap"; cases "tl (ap_rooms ap)") (auto simp: persistable_aperture_def)
  from p ab assms(3) have la: "getRoomLabel s' (f a) = getRoomLabel s a"
    by (simp add: persistable_aperture_def)
  show ?case
  proof (cases "ap_grounded ap")
    case True
    then have "ap_rooms ap' = [f a, b]" by (simp add: r rename_rooms_def ab)
    then show ?thesis
      using True g ar u ab la ih
      by (simp add: a' Let_def nth_opt_def split: option.splits)
  next
    case False
    then have r': "ap_rooms ap' = [f a, f b]" by (simp add: r rename_rooms_def ab)
    from p ab False assms(3) have lb: "getRoomLabel s' (f b) = getRoomLabel s b"
      by (simp add: persistable_aperture_def)
    show ?thesis
      using False g ar u ab la lb ih r'
      by (simp add: a' Let_def nth_opt_def split: option.splits)
  qed
qed

lemma room_content_id:
  "room_content id = (\<lambda>a. (fst a, room_label (snd a), room_data (snd a), room_ui (snd a)))"
  by (rule ext) (simp add: room_content_def)

lemma loaded_rooms_content:
  assumes "distinct (map room_label xs)"
  shows "map (room_content id) (loaded_rooms gen n xs) =
         map (\<lambda>r. (room_id (the (temp_after gen n xs temp (room_label r))),
                   room_label r, room_data r, room_ui r)) xs"
  using assms
proof (induction xs arbitrary: n temp)
  case Nil
  then show ?case by simp
next
  case (Cons x xs)
  let ?temp' = "temp(room_label x \<mapsto> x\<lparr>room_id := gen n\<rparr>)"
  from Cons.prems have nx: "room_label x \<notin> set (map room_label xs)"
    and d: "distinct (map room_label xs)" by simp_all
  have hd: "temp_after gen (Suc n) xs ?temp' (room_label x) = Some (x\<lparr>room_id := gen n\<rparr>)"
    using temp_after_other [OF nx, of gen "Suc n" ?temp'] by simp
  have tl: "map (room_content id) (loaded_rooms gen (Suc n) xs) =
      map (\<lambda>r. (room_id (the (temp_after gen (Suc n) xs ?temp' (room_label r))),
                room_label r, room_data r, room_ui r)) xs"
    by (rule Cons.IH [OF d])
  then have tl': "map (\<lambda>a. (fst a, room_label (snd a), room_data (snd a), room_ui (snd a)))
        (loaded_rooms gen (Suc n) xs) =
      map (\<lambda>r. (room_id (the (temp_after gen (Suc n) xs ?temp' (room_label r))),
                room_label r, room_data r, room_ui r)) xs"
    by (simp only: room_content_id)
  show ?case
    by (simp only: room_content_id) (simp add: hd tl' del: fun_upd_apply)
qed

subsection \<open>The round trip\<close>

lemma entries_order_mset: "mset (entries_order rs) = mset rs"
  by (simp add: entries_order_def mset_foldl_enter)

lemma entries_order_set: "set (entries_order rs) = set rs"
  by (rule mset_eq_setD) (rule entries_order_mset)

lemma entries_order_distinct:
  "distinct (map room_label (entries_order rs)) = distinct (map room_label rs)"
proof -
  have "mset (map room_label (entries_order rs)) = mset (map room_label rs)"
    by (simp add: entries_order_mset)
  then show ?thesis by (rule mset_eq_imp_distinct_iff)
qed

lemma room_filename_inj: "room_filename l = room_filename l' \<Longrightarrow> l = l'"
  by (simp add: room_filename_def)

lemma saved_names_distinct:
  assumes "distinct (map room_label rs)"
  shows "distinct (map fst (map (\<lambda>x. (room_filename (room_label x), room_data x)) rs @
           [(''layout_master.json'', text)]))"
proof -
  have "distinct (map room_filename (map room_label rs))"
    using assms by (simp add: distinct_map inj_on_def room_filename_inj)
  moreover have "''layout_master.json'' \<notin> set (map room_filename (map room_label rs))"
    by (auto simp: room_filename_def)
  ultimately show ?thesis by (simp add: comp_def)
qed

lemma map_of_labelled:
  assumes "distinct (map room_label xs)" and "r \<in> set xs"
  shows "map_of (map (\<lambda>x. (room_label x, g x)) xs @ ys) (room_label r) = Some (g r)"
proof -
  have "distinct (map fst (map (\<lambda>x. (room_label x, g x)) xs))"
    using assms(1) by (simp add: comp_def)
  moreover have "(room_label r, g r) \<in> set (map (\<lambda>x. (room_label x, g x)) xs)"
    using assms(2) by auto
  ultimately have "map_of (map (\<lambda>x. (room_label x, g x)) xs) (room_label r) = Some (g r)"
    by (rule map_of_is_SomeI)
  then show ?thesis by (simp add: map_add_def)
qed

lemma map_of_unlabelled:
  assumes "k \<notin> set (map room_label xs)"
  shows "map_of (map (\<lambda>x. (room_label x, g x)) xs @ [(k, v)]) k = Some v"
proof -
  have "k \<notin> set (map fst (map (\<lambda>x. (room_label x, g x)) xs))"
    using assms by (simp add: comp_def)
  then show ?thesis by (rule map_of_append_fresh)
qed

lemma loaded_rooms_lookup:
  assumes "inj gen" and "(k, r') \<in> set (loaded_rooms gen n xs)"
  shows "map_of (loaded_rooms gen n xs) k = Some r'"
proof -
  have "inj_on gen (set [n..<n + length xs])"
    using assms(1) by (rule inj_on_subset) simp
  then have "distinct (map gen [n..<n + length xs])"
    by (simp add: distinct_map)
  then have "distinct (map fst (loaded_rooms gen n xs))"
    by (simp add: loaded_rooms_keys)
  then show ?thesis using assms(2) by (rule map_of_is_SomeI)
qed

text \<open>
  Why the side of a grounded aperture must not be the label of a room: the loader looks
  the destination up among the room labels before it takes it for a side, so the
  descriptor of a grounded aperture from Room 0 to the side Left, loaded where a room is
  labelled Left, gives an aperture between the two rooms.
\<close>

lemma load_aperture_side_is_room_label:
  "load_aperture example_gen None (descriptor ''Room 0'' (Some ''Left'') (Finite 2)) 0 2
     [''Room 0'' \<mapsto> room_R1, ''Left'' \<mapsto> room_R2\<lparr>room_label := ''Left''\<rparr>] empty_state =
   Inr (3, empty_state\<lparr>apertures :=
     [(''xxx'', \<lparr>ap_id = ''xxx'', ap_area = Finite 2, ap_grounded = False,
                ap_rooms = [''r1'', ''r2''], ap_ui = \<lparr>p_left = 230, p_top = 95\<rparr>\<rparr>)]\<rparr>)"
proof -
  have p: "pixel_box room_R1" "pixel_box (room_R2\<lparr>room_label := ''Left''\<rparr>)"
    by (simp_all add: pixel_box_def whole_pixels_def room_R1_def room_R2_def default_room_ui_def)
  have l: "between_left room_R1 (room_R2\<lparr>room_label := ''Left''\<rparr>) = 230"
    by (simp add: between_left_pixels [OF p]) (simp add: room_R1_def room_R2_def default_room_ui_def)
  have t: "between_top room_R1 (room_R2\<lparr>room_label := ''Left''\<rparr>) = 95"
    by (simp add: between_top_pixels [OF p]) (simp add: room_R1_def room_R2_def default_room_ui_def)
  have i: "room_id room_R1 = ''r1''" "room_id room_R2 = ''r2''"
    by (simp_all add: room_R1_def room_R2_def)
  show ?thesis
    by (simp add: load_aperture_def member_descriptor temp_lookup_def
        json_of_number_def createApertureBetween_def Let_def l t i
        aperture_ui_data_def area_or_default_def empty_state_def example_gen_def
        object_prototype_keys_def numeral_3_eq_3)
qed

text \<open>
  C1, amended. For every persistable layout: when \<^verbatim>\<open>JSON.parse\<close> reads back the
  master document \<^verbatim>\<open>JSON.stringify\<close> wrote, no room payload is itself taken for a
  master document, \<^verbatim>\<open>generateId()\<close> never repeats an identifier, and the files that
  \<^verbatim>\<open>save()\<close> downloaded are uploaded in any order, then \<^verbatim>\<open>save()\<close> completes and
  \<^verbatim>\<open>load()\<close> completes in a layout isomorphic to the original: under a one-to-one
  renaming of the room identifiers the rooms are the same (label, payload, UI box) and
  the apertures are the same, one by one in registry order (grounded flag, rooms
  entries, area, UI position). The aperture loop of \<^verbatim>\<open>save()\<close> then writes for the
  loaded layout the descriptors \<^verbatim>\<open>{origin, destination, area}\<close> and the UI positions
  it wrote for the original.
\<close>

theorem save_load_round_trip:
  assumes ps: "persistable s"
    and inj: "inj gen"
    and rt: "\<forall>d. master_document s = Some d \<longrightarrow> parse (stringify d) = Some d"
    and nm: "\<forall>r \<in> set (map_values (rooms s)).
               \<not> is_master (safeParseJSON parse (room_data r) JNull)"
    and up: "mset fileList = mset (files_of (save stringify s))"
  shows "\<exists>files s' f. save stringify s = Saved files \<and>
           load parse gen dflt fileList t = Loaded s' \<and>
           isomorphism f s s' \<and> room_view s' = room_view s \<and>
           save_apertures s' (map_values (apertures s')) [] [] =
             save_apertures s (map_values (apertures s)) [] []"
proof -
  let ?rs = "map_values (rooms s)"
  let ?aps = "map_values (apertures s)"
  let ?E = "entries_order ?rs"
  let ?fR = "\<lambda>x. (room_label x, JStr (room_filename (room_label x)))"
  let ?fU = "\<lambda>x. (room_label x, json_of_room_ui (room_ui x))"
  let ?U = "map (\<lambda>ap. json_of_aperture_ui (ap_ui ap)) ?aps"
  let ?ud = "map ?fU ?E @ [(''apertures'', JArr ?U)]"
  let ?m = "JObj [(''rooms'', JObj (map ?fR ?E)),
                  (''apertures'', JArr (map (descriptor_of s) ?aps)),
                  (''ui'', JObj ?ud)]"
  let ?files = "map (\<lambda>x. (room_filename (room_label x), room_data x)) ?rs @
                [(''layout_master.json'', stringify ?m)]"
  from ps have dk: "distinct (map fst (rooms s))"
    and dl: "distinct (map room_label ?rs)"
    and pr: "list_all persistable_room ?rs"
    and pa: "list_all (persistable_aperture s) ?aps"
    by (simp_all add: persistable_def map_keys_def)
  have dE: "distinct (map room_label ?E)"
    using dl by (simp add: entries_order_distinct)
  have md: "master_document s = Some ?m"
    by (rule persistable_master_document [OF ps])
  have sv: "save stringify s = Saved ?files"
    by (rule persistable_save [OF ps md])
  from rt md have pm: "parse (stringify ?m) = Some ?m" by blast
  from up sv have ms: "mset fileList = mset ?files" by simp
  then have sf: "set fileList = set ?files" by (rule mset_eq_setD)
  have "mset (map fst fileList) = mset (map fst ?files)"
    by (simp only: mset_map ms)
  then have "distinct (map fst fileList) = distinct (map fst ?files)"
    by (rule mset_eq_imp_distinct_iff)
  then have df: "distinct (map fst fileList)"
    using saved_names_distinct [OF dl] by simp
  \<comment> \<open>the master document is found\<close>
  have im: "is_master ?m" by (simp add: is_master_def)
  have "\<forall>f \<in> set fileList. safeParseJSON parse (snd f) JNull = ?m \<or>
      \<not> is_master (safeParseJSON parse (snd f) JNull)"
    unfolding sf using nm pm by (auto simp: safeParseJSON_def)
  moreover have "\<exists>f \<in> set fileList. safeParseJSON parse (snd f) JNull = ?m"
    unfolding sf using pm by (auto simp: safeParseJSON_def)
  ultimately have fm: "findMaster parse fileList = Some ?m"
    by (rule findMaster_finds [OF im])
  \<comment> \<open>the rooms are created\<close>
  have k0: "map fst (rooms (reset t)) = map gen [0..<0]"
    by (simp add: reset_def)
  have c1: "\<forall>r \<in> set ?E. persistable_room r"
    using pr by (simp add: entries_order_set list_all_iff)
  have c2: "\<forall>r \<in> set ?E. map_of ?ud (room_label r) = Some (json_of_room_ui (room_ui r))"
  proof
    fix r assume "r \<in> set ?E"
    with dE show "map_of ?ud (room_label r) = Some (json_of_room_ui (room_ui r))"
      by (rule map_of_labelled [where g = "\<lambda>x. json_of_room_ui (room_ui x)"])
  qed
  have c3: "\<forall>r \<in> set ?E. find (\<lambda>f. fst f = room_filename (room_label r)) fileList =
      Some (room_filename (room_label r), room_data r)"
  proof
    fix r assume "r \<in> set ?E"
    then have "r \<in> set ?rs" by (simp add: entries_order_set)
    then have "(room_filename (room_label r), room_data r) \<in> set fileList"
      unfolding sf by auto
    with df show "find (\<lambda>f. fst f = room_filename (room_label r)) fileList =
        Some (room_filename (room_label r), room_data r)"
      by (rule find_by_name)
  qed
  let ?temp = "temp_after gen 0 ?E Map.empty"
  let ?t1 = "(reset t)\<lparr>rooms := rooms (reset t) @ loaded_rooms gen 0 ?E\<rparr>"
  have lr: "load_rooms gen dflt fileList (Some (JObj ?ud)) (map ?fR ?E) 0 Map.empty (reset t) =
      RoomsDone (0 + length ?E) ?temp ?t1"
    by (rule load_rooms_loaded [OF inj k0 c1 c2 c3])
  have r1: "rooms ?t1 = loaded_rooms gen 0 ?E" and a1: "apertures ?t1 = []"
    by (simp_all add: reset_def)
  \<comment> \<open>the apertures are created\<close>
  have link: "\<forall>k r. map_of (rooms s) k = Some r \<longrightarrow> ?temp (room_label r) \<noteq> None"
  proof (intro allI impI)
    fix k r assume "map_of (rooms s) k = Some r"
    then have "(k, r) \<in> set (rooms s)" by (rule map_of_SomeD)
    then have "r \<in> set ?E"
      by (force simp: entries_order_set map_values_def)
    from temp_after_room [OF dE this, of gen 0 Map.empty] obtain i where
      "?temp (room_label r) = Some (r\<lparr>room_id := gen i\<rparr>)"
      by blast
    then show "?temp (room_label r) \<noteq> None" by simp
  qed
  have dom: "\<forall>l. ?temp l \<noteq> None \<longrightarrow> l \<in> set (map room_label ?rs)"
  proof (intro allI impI)
    fix l assume h: "?temp l \<noteq> None"
    have "l \<in> set (map room_label ?E)"
    proof (rule ccontr)
      assume "l \<notin> set (map room_label ?E)"
      then have "?temp l = Map.empty l" by (rule temp_after_other)
      with h show False by simp
    qed
    then show "l \<in> set (map room_label ?rs)"
      by (simp add: entries_order_set)
  qed
  have na: "''apertures'' \<notin> set (map room_label ?E)"
    using c1 by (auto simp: persistable_room_def)
  have ua: "map_of ?ud ''apertures'' = Some (JArr ?U)"
    using na by (rule map_of_unlabelled [where g = "\<lambda>x. json_of_room_ui (room_ui x)"])
  have dr: "drop 0 ?U = map (\<lambda>ap. json_of_aperture_ui (ap_ui ap)) ?aps"
    by simp
  have ka: "map fst (apertures ?t1) = map gen [length ?E..<length ?E]"
    by (simp add: a1)
  let ?f = "new_room_id s ?temp"
  from load_apertures_persistable [where gen = gen and n = "length ?E" and ?n0.0 = "length ?E",
      OF inj pa link dom ua dr ka order_refl]
  obtain t2 where
    l2: "load_apertures gen (Some (JObj ?ud)) (map (descriptor_of s) ?aps) 0 (length ?E) ?temp ?t1 =
      Loaded t2" and
    f2: "t2 = ?t1\<lparr>apertures := apertures t2\<rparr>" and
    v2: "map (\<lambda>e. aperture_content id (snd e)) (apertures t2) =
      map (\<lambda>e. aperture_content id (snd e)) (apertures ?t1) @
      map (aperture_content ?f) ?aps"
    by blast
  have ld: "load parse gen dflt fileList t = Loaded t2"
    using lr l2 by (simp add: load_def fm Let_def)
  \<comment> \<open>the rooms of the two states\<close>
  from f2 have "rooms t2 = rooms (?t1\<lparr>apertures := apertures t2\<rparr>)"
    by (rule arg_cong [where f = rooms])
  then have r2: "rooms t2 = loaded_rooms gen 0 ?E" by (simp add: reset_def)
  have "room_view t2 = mset (map (\<lambda>r. (room_label r, room_data r, room_ui r)) ?E)"
    using loaded_rooms_view [of gen 0 ?E]
    by (simp add: room_view_def map_values_def r2 comp_def)
  also have "\<dots> = image_mset (\<lambda>r. (room_label r, room_data r, room_ui r)) (mset ?E)"
    by simp
  also have "\<dots> = room_view s"
    by (simp add: entries_order_mset room_view_def)
  finally have rv: "room_view t2 = room_view s" .
  \<comment> \<open>the renaming\<close>
  let ?nu = "\<lambda>r. room_id (the (?temp (room_label r)))"
  let ?g = "\<lambda>r. (?nu r, room_label r, room_data r, room_ui r)"
  have fe: "?f (fst e) = ?nu (snd e)" if "e \<in> set (rooms s)" for e
  proof -
    from that have "(fst e, snd e) \<in> set (rooms s)" by simp
    with dk have m: "map_of (rooms s) (fst e) = Some (snd e)" by (rule map_of_is_SomeI)
    with link obtain r' where "?temp (room_label (snd e)) = Some r'" by blast
    with m show ?thesis by (simp add: new_room_id_def map_get_def)
  qed
  have "map (room_content ?f) (rooms s) = map (\<lambda>e. ?g (snd e)) (rooms s)"
    by (rule map_cong [OF refl]) (simp add: room_content_def fe)
  also have "\<dots> = map ?g ?rs"
    by (simp add: map_values_def comp_def)
  finally have rc: "map (room_content ?f) (rooms s) = map ?g ?rs" .
  have lc: "map (room_content id) (rooms t2) = map ?g ?E"
    unfolding r2 by (rule loaded_rooms_content [OF dE])
  have "mset (map ?g ?rs) = image_mset ?g (mset ?rs)" by simp
  also have "\<dots> = image_mset ?g (mset ?E)" by (simp only: entries_order_mset)
  also have "\<dots> = mset (map ?g ?E)" by simp
  finally have gm: "mset (map ?g ?rs) = mset (map ?g ?E)" .
  have i2: "mset (map (room_content ?f) (rooms s)) = mset (map (room_content id) (rooms t2))"
    by (simp only: rc lc gm)
  have "map ?f (map_keys (rooms s)) = map fst (map (room_content ?f) (rooms s))"
    by (simp add: map_keys_def room_content_def comp_def)
  then have "mset (map ?f (map_keys (rooms s))) =
      mset (map fst (map (room_content ?f) (rooms s)))"
    by (rule arg_cong)
  also have "\<dots> = image_mset fst (mset (map (room_content ?f) (rooms s)))"
    by (rule mset_map)
  also have "\<dots> = image_mset fst (mset (map (room_content id) (rooms t2)))"
    by (simp only: i2)
  also have "\<dots> = mset (map fst (rooms t2))"
    by (simp add: room_content_id multiset.map_comp comp_def)
  finally have km: "mset (map ?f (map_keys (rooms s))) = mset (map fst (rooms t2))" .
  have "inj_on gen (set [0..<0 + length ?E])"
    using inj by (rule inj_on_subset) simp
  then have "distinct (map gen [0..<0 + length ?E])"
    by (simp add: distinct_map)
  then have "distinct (map fst (rooms t2))"
    by (simp only: r2 loaded_rooms_keys)
  with mset_eq_imp_distinct_iff [OF km]
  have i1: "distinct (map ?f (map_keys (rooms s)))" by simp
  \<comment> \<open>the apertures of the two states\<close>
  have i3: "map (\<lambda>e. aperture_content ?f (snd e)) (apertures s) =
      map (\<lambda>e. aperture_content id (snd e)) (apertures t2)"
    using v2 by (simp add: reset_def map_values_def comp_def)
  from i1 i2 i3 have iso: "isomorphism ?f s t2"
    by (simp only: isomorphism_def simp_thms)
  \<comment> \<open>what saving the loaded layout writes for the apertures\<close>
  have lab: "\<forall>k. map_has (rooms s) k \<longrightarrow> getRoomLabel t2 (?f k) = getRoomLabel s k"
  proof (intro allI impI)
    fix k assume "map_has (rooms s) k"
    then obtain r where m: "map_of (rooms s) k = Some r"
      by (auto simp: map_has_def)
    then have "(k, r) \<in> set (rooms s)" by (rule map_of_SomeD)
    then have rE: "r \<in> set ?E"
      by (force simp: entries_order_set map_values_def)
    from temp_after_room [OF dE rE, of gen 0 Map.empty] obtain i where
      1: "?temp (room_label r) = Some (r\<lparr>room_id := gen i\<rparr>)" and
      2: "(gen i, r\<lparr>room_id := gen i\<rparr>) \<in> set (loaded_rooms gen 0 ?E)"
      by blast
    from m 1 have fk: "?f k = gen i"
      by (simp add: new_room_id_def map_get_def)
    from loaded_rooms_lookup [OF inj 2]
    have "map_of (rooms t2) (gen i) = Some (r\<lparr>room_id := gen i\<rparr>)"
      by (simp only: r2)
    then show "getRoomLabel t2 (?f k) = getRoomLabel s k"
      by (simp add: getRoomLabel_def map_get_def fk m)
  qed
  have "map (aperture_content id) (map_values (apertures t2)) = map (aperture_content ?f) ?aps"
    using i3 by (simp add: map_values_def comp_def)
  from save_apertures_renamed [OF pa this lab]
  have sa: "save_apertures t2 (map_values (apertures t2)) [] [] = save_apertures s ?aps [] []" .
  from sv ld iso rv sa show ?thesis by blast
qed

lemma three_apertures_rooms:
  "rooms three_apertures = [(''r1'', room_R1), (''r2'', room_R2), (''r3'', room_R3)]"
  by (simp add: three_apertures_def linked_rooms_def createGroundedAperture_def
      createApertureBetween_def Let_def empty_state_def)

lemma three_apertures_apertures:
  "map (\<lambda>e. (ap_rooms (snd e), ap_grounded (snd e), ap_area (snd e))) (apertures three_apertures) =
     [([''r3'', ''r2''], False, Finite 3), ([''r1'', ''r2''], False, Finite 1),
      ([''r1'', ''Left''], True, Finite 2)]"
  by (simp add: three_apertures_def linked_rooms_def createGroundedAperture_def
      createApertureBetween_def Let_def empty_state_def area_or_default_def
      room_R1_def room_R2_def room_R3_def)

lemma three_apertures_persistable: "persistable three_apertures"
proof -
  have r: "list_all persistable_room (map_values (rooms three_apertures))"
    by (simp add: three_apertures_rooms map_values_def persistable_room_def
        room_R1_def room_R2_def room_R3_def)
  have d: "distinct (map room_label (map_values (rooms three_apertures)))"
    by (simp add: three_apertures_rooms map_values_def room_R1_def room_R2_def room_R3_def)
  have k: "distinct (map_keys (rooms three_apertures))"
    by (simp add: three_apertures_rooms map_keys_def)
  have "list_all (\<lambda>x. persistable_aperture three_apertures x)
      (map snd (apertures three_apertures))"
    using three_apertures_apertures
    by (auto simp: list_all_iff persistable_aperture_def map_has_def three_apertures_rooms
        object_prototype_keys_def map_values_def room_R1_def room_R2_def room_R3_def)
  with r d k show ?thesis by (simp add: persistable_def map_values_def)
qed

lemma example_gen_inj: "inj example_gen"
proof (rule injI)
  fix n m assume "example_gen n = example_gen m"
  then have "length (example_gen n) = length (example_gen m)" by simp
  then show "n = m" by (simp add: example_gen_def)
qed

theorem save_load_round_trip_witness:
  "\<exists>files s' f. save stringify_stub three_apertures = Saved files \<and>
     load (parse_for three_apertures) example_gen ''{}''
       (rev (files_of (save stringify_stub three_apertures))) empty_state = Loaded s' \<and>
     isomorphism f three_apertures s' \<and>
     room_view s' = room_view three_apertures \<and>
     save_apertures s' (map_values (apertures s')) [] [] =
       save_apertures three_apertures (map_values (apertures three_apertures)) [] []"
proof -
  have rt: "\<forall>d. master_document three_apertures = Some d \<longrightarrow>
      parse_for three_apertures (stringify_stub d) = Some d"
    by (simp add: parse_for_def stringify_stub_def)
  have nm: "\<forall>r \<in> set (map_values (rooms three_apertures)).
      \<not> is_master (safeParseJSON (parse_for three_apertures) (room_data r) JNull)"
    by (simp add: three_apertures_rooms map_values_def parse_for_def safeParseJSON_def
        is_master_def room_R1_def room_R2_def room_R3_def)
  have up: "mset (rev (files_of (save stringify_stub three_apertures))) =
      mset (files_of (save stringify_stub three_apertures))"
    by simp
  from save_load_round_trip [OF three_apertures_persistable example_gen_inj rt nm up]
  show ?thesis .
qed

end
